theory Spec2Isabelle
  imports Complex_Main
begin

section \<open>JavaScript values\<close>

text \<open>
  A \<open>Date\<close> is the number of milliseconds since the epoch. A thrown value is either an
  \<open>Error\<close> object carrying its message or some other value; the services only ever ask
  \<open>error instanceof Error ? error.message : 'Unknown error'\<close> of it.
\<close>

type_synonym date = int

datatype thrown = JsError string | NonError

definition errorMessage :: "thrown \<Rightarrow> string" where
  "errorMessage e = (case e of JsError m \<Rightarrow> m | NonError \<Rightarrow> ''Unknown error'')"

text \<open>
  The values that travel as tool-call arguments. \<open>JsInherited n\<close> is the member \<open>n\<close> that a
  plain object literal inherits from \<open>Object.prototype\<close> (a function, or for \<open>__proto__\<close>
  the prototype object itself); \<open>JsUndefined\<close> is the result of reading a property that
  is found nowhere on the prototype chain. Numbers are passed through unchanged, no
  arithmetic is done on them.
\<close>

datatype js_value = JsString string | JsNumber real | JsInherited string | JsUndefined

fun truthy :: "js_value \<Rightarrow> bool" where
  "truthy (JsString s) = (s \<noteq> [])"
| "truthy (JsNumber r) = (r \<noteq> 0)"
| "truthy (JsInherited n) = True"
| "truthy JsUndefined = False"

text \<open>The operator \<open>a || b\<close>.\<close>

definition js_or :: "js_value \<Rightarrow> js_value \<Rightarrow> js_value" where
  "js_or a b = (if truthy a then a else b)"

text \<open>
  The own property names of \<open>Object.prototype\<close>. Every object written as a literal
  \<open>{ ... }\<close> has this prototype, and \<open>obj[key]\<close> finds these members when \<open>obj\<close> has no
  own property \<open>key\<close>.
\<close>

definition Object_prototype :: "string list" where
  "Object_prototype =
     [''constructor'', ''__defineGetter__'', ''__defineSetter__'', ''hasOwnProperty'',
      ''__lookupGetter__'', ''__lookupSetter__'', ''isPrototypeOf'',
      ''propertyIsEnumerable'', ''toString'', ''valueOf'', ''__proto__'',
      ''toLocaleString'']"

text \<open>\<open>obj[key]\<close> for an object literal whose own properties are all strings.\<close>

definition property_get :: "(string \<times> string) list \<Rightarrow> string \<Rightarrow> js_value" where
  "property_get obj key =
     (case map_of obj key of
        Some v \<Rightarrow> JsString v
      | None \<Rightarrow> if key \<in> set Object_prototype then JsInherited key else JsUndefined)"

section \<open>MCPClient: the connection manager\<close>

subsection \<open>Types\<close>

record MCPServerConfig =
  cfg_name :: string
  command :: string
  args :: "string list"
  env :: "(string \<times> string) list option"

record MCPTool =
  tool_name :: string
  description :: string
  inputSchema :: string

record ConnectionStatus =
  connected :: bool
  serverName :: string
  lastChecked :: date
  error :: "string option"

text \<open>
  Objects with identity. Every connect attempt constructs one \<open>StdioClientTransport\<close>
  and one \<open>Client\<close>; both carry the ordinal of the attempt that constructed them.
\<close>

datatype StdioClientTransport = Transport nat

datatype Client = ClientObj nat

text \<open>A request put on an established connection, and what a tool call gets back.\<close>

datatype content_item = TextItem string | OtherItem

datatype request =
    ListToolsRequest nat
  | CallToolRequest nat string "(string \<times> js_value) list"

datatype tool_reply = ToolReturns "content_item list" | ToolThrows thrown

text \<open>
  The five maps of the class, as declared, and around them the part of the process that
  the object acts on: how many transports have been constructed, which transports are
  live (their connection was established and has not been closed), each with the
  connection name it was created for, the requests put on the wire so far, and the
  delays slept so far.
\<close>

record MCPClient =
  clients :: "string \<rightharpoonup> Client"
  transports :: "string \<rightharpoonup> StdioClientTransport"
  connectionStatus :: "string \<rightharpoonup> ConnectionStatus"
  tools :: "string \<rightharpoonup> MCPTool list"
  retryAttempts :: "string \<rightharpoonup> nat"

record mcp_process = MCPClient +
  constructed :: nat
  live :: "(string \<times> nat) list"
  wire :: "request list"
  slept :: "nat list"

definition MAX_RETRIES :: nat where
  "MAX_RETRIES = 3"

definition BASE_DELAY :: nat where
  "BASE_DELAY = 1000"

definition new_MCPClient :: mcp_process where
  "new_MCPClient =
     \<lparr>clients = Map.empty, transports = Map.empty, connectionStatus = Map.empty,
      tools = Map.empty, retryAttempts = Map.empty,
      constructed = 0, live = [], wire = [], slept = []\<rparr>"

subsection \<open>connect\<close>

text \<open>
  What the outside world does to one connect attempt: \<open>client.connect(transport)\<close>
  throws, or it succeeds and \<open>client.listTools()\<close> throws, or both succeed and the
  server lists its tools. A transport whose \<open>client.connect\<close> threw is not live.
\<close>

datatype attempt_result =
    ConnectThrows thrown
  | ListToolsThrows thrown
  | Established "MCPTool list"

text \<open>
  The \<open>try\<close> block of \<open>connectWithRetry\<close>, lines 27 to 58: \<open>None\<close> when it runs to its
  end, \<open>Some e\<close> when \<open>e\<close> is thrown, with the state as the block left it. \<open>now\<close> is what
  \<open>new Date()\<close> reads in this attempt.
\<close>

definition connect_try ::
  "attempt_result \<Rightarrow> date \<Rightarrow> MCPServerConfig \<Rightarrow> mcp_process \<Rightarrow> thrown option \<times> mcp_process" where
  "connect_try r now config s =
     (let n = constructed s;
          s0 = s\<lparr>constructed := Suc n\<rparr>;
          s1 = s0\<lparr>clients := (clients s0)(cfg_name config \<mapsto> ClientObj n),
                  transports := (transports s0)(cfg_name config \<mapsto> Transport n),
                  live := live s0 @ [(cfg_name config, n)],
                  wire := wire s0 @ [ListToolsRequest n]\<rparr>
      in case r of
           ConnectThrows e \<Rightarrow> (Some e, s0)
         | ListToolsThrows e \<Rightarrow> (Some e, s1)
         | Established ts \<Rightarrow>
             (None,
              s1\<lparr>tools := (tools s1)(cfg_name config \<mapsto> ts),
                 connectionStatus := (connectionStatus s1)(cfg_name config \<mapsto>
                   \<lparr>connected = True, serverName = cfg_name config,
                    lastChecked = now, error = None\<rparr>),
                 retryAttempts := (retryAttempts s1)(cfg_name config \<mapsto> 0)\<rparr>))"

text \<open>
  \<open>connectWithRetry\<close>: \<open>io attempt\<close> is what the world does to the attempt numbered
  \<open>attempt\<close> and the date read in it. The \<open>catch\<close> block retries after a sleep while
  \<open>attempt < MAX_RETRIES\<close>, and otherwise records the failure and rethrows.
\<close>

function connectWithRetry ::
  "(nat \<Rightarrow> attempt_result \<times> date) \<Rightarrow> MCPServerConfig \<Rightarrow> nat \<Rightarrow> mcp_process
     \<Rightarrow> (thrown + unit) \<times> mcp_process" where
  "connectWithRetry io config attempt s =
     (case connect_try (fst (io attempt)) (snd (io attempt)) config s of
        (None, s') \<Rightarrow> (Inr (), s')
      | (Some e, s') \<Rightarrow>
          if attempt < MAX_RETRIES then
            connectWithRetry io config (attempt + 1)
              (s'\<lparr>retryAttempts := (retryAttempts s')(cfg_name config \<mapsto> attempt + 1),
                  slept := slept s' @ [BASE_DELAY * 2 ^ attempt]\<rparr>)
          else
            (Inl e,
             s'\<lparr>connectionStatus := (connectionStatus s')(cfg_name config \<mapsto>
                  \<lparr>connected = False, serverName = cfg_name config,
                   lastChecked = snd (io attempt),
                   error = Some (errorMessage e)\<rparr>)\<rparr>))"
  by pat_completeness auto
termination
  by (relation "measure (\<lambda>(io, config, attempt, s). MAX_RETRIES - attempt)") auto

declare connectWithRetry.simps [simp del]

definition connect ::
  "(nat \<Rightarrow> attempt_result \<times> date) \<Rightarrow> MCPServerConfig \<Rightarrow> mcp_process
     \<Rightarrow> (thrown + unit) \<times> mcp_process" where
  "connect io config s = connectWithRetry io config 0 s"

text \<open>
  The attempts are numbered \<open>0, \<dots>, MAX_RETRIES\<close>: the first one and \<open>MAX_RETRIES\<close>
  retries. \<open>max_attempts\<close> is the number of attempts after which \<open>connect\<close> gives up.
\<close>

definition max_attempts :: nat where
  "max_attempts = Suc MAX_RETRIES"

fun failed :: "attempt_result \<Rightarrow> bool" where
  "failed (ConnectThrows e) = True"
| "failed (ListToolsThrows e) = True"
| "failed (Established ts) = False"

fun thrown_by :: "attempt_result \<Rightarrow> thrown" where
  "thrown_by (ConnectThrows e) = e"
| "thrown_by (ListToolsThrows e) = e"
| "thrown_by (Established ts) = NonError"

subsection \<open>disconnect, reconnect, healthCheck, callTool\<close>

text \<open>
  \<open>disconnect\<close>: \<open>closeClient\<close> and \<open>closeTransport\<close> are what \<open>client.close()\<close> and
  \<open>transport.close()\<close> throw, if anything. Closing the client closes the connection it
  runs on, so the transport is no longer live once \<open>client.close()\<close> has returned.
\<close>

definition disconnect ::
  "thrown option \<Rightarrow> thrown option \<Rightarrow> string \<Rightarrow> mcp_process \<Rightarrow> (thrown + unit) \<times> mcp_process" where
  "disconnect closeClient closeTransport name s =
     (case (clients s name, transports s name) of
        (Some client, Some (Transport n)) \<Rightarrow>
          (case closeClient of
             Some e \<Rightarrow> (Inl e, s)
           | None \<Rightarrow>
               let s1 = s\<lparr>live := filter (\<lambda>l. l \<noteq> (name, n)) (live s)\<rparr> in
               (case closeTransport of
                  Some e \<Rightarrow> (Inl e, s1)
                | None \<Rightarrow>
                    (Inr (),
                     s1\<lparr>clients := (clients s1)(name := None),
                        transports := (transports s1)(name := None),
                        tools := (tools s1)(name := None),
                        connectionStatus := (connectionStatus s1)(name := None)\<rparr>)))
      | _ \<Rightarrow> (Inr (), s))"

definition reconnect ::
  "thrown option \<Rightarrow> thrown option \<Rightarrow> (nat \<Rightarrow> attempt_result \<times> date) \<Rightarrow> string
     \<Rightarrow> MCPServerConfig \<Rightarrow> mcp_process \<Rightarrow> (thrown + unit) \<times> mcp_process" where
  "reconnect closeClient closeTransport io name config s =
     (case disconnect closeClient closeTransport name s of
        (Inl e, s') \<Rightarrow> (Inl e, s')
      | (Inr u, s') \<Rightarrow> connect io config s')"

text \<open>
  \<open>healthCheck\<close>: \<open>listed\<close> is what \<open>client.listTools()\<close> throws, if anything, and \<open>now\<close>
  the date read afterwards.
\<close>

definition healthCheck ::
  "thrown option \<Rightarrow> date \<Rightarrow> string \<Rightarrow> mcp_process \<Rightarrow> bool \<times> mcp_process" where
  "healthCheck listed now name s =
     (case clients s name of
        None \<Rightarrow> (False, s)
      | Some (ClientObj n) \<Rightarrow>
          let s1 = s\<lparr>wire := wire s @ [ListToolsRequest n]\<rparr> in
          (case listed of
             None \<Rightarrow>
               (True,
                s1\<lparr>connectionStatus := (connectionStatus s1)(name \<mapsto>
                     \<lparr>connected = True, serverName = name, lastChecked = now,
                      error = None\<rparr>)\<rparr>)
           | Some e \<Rightarrow>
               (False,
                s1\<lparr>connectionStatus := (connectionStatus s1)(name \<mapsto>
                     \<lparr>connected = False, serverName = name, lastChecked = now,
                      error = Some (errorMessage e)\<rparr>)\<rparr>)))"

text \<open>Failing health checks one after the other, each with its own error and date.\<close>

fun failing_healthChecks :: "(thrown \<times> date) list \<Rightarrow> string \<Rightarrow> mcp_process \<Rightarrow> mcp_process" where
  "failing_healthChecks [] name s = s"
| "failing_healthChecks (c # cs) name s =
     failing_healthChecks cs name (snd (healthCheck (Some (fst c)) (snd c) name s))"

definition not_connected :: "string \<Rightarrow> thrown" where
  "not_connected name = JsError (''Not connected to MCP server: '' @ name)"

definition callTool ::
  "tool_reply \<Rightarrow> string \<Rightarrow> string \<Rightarrow> (string \<times> js_value) list \<Rightarrow> mcp_process
     \<Rightarrow> (thrown + content_item list) \<times> mcp_process" where
  "callTool reply name toolName params s =
     (case clients s name of
        None \<Rightarrow> (Inl (not_connected name), s)
      | Some (ClientObj n) \<Rightarrow>
          let s1 = s\<lparr>wire := wire s @ [CallToolRequest n toolName params]\<rparr> in
          (case reply of
             ToolReturns c \<Rightarrow> (Inr c, s1)
           | ToolThrows e \<Rightarrow> (Inl e, s1)))"

text \<open>
  The state names of the specification, read off the stored status: no status is
  Disconnected, a status with \<open>connected: true\<close> is Connected, one with
  \<open>connected: false\<close> is Failed.
\<close>

datatype conn_state = Disconnected | Connected | Failed

definition connection_state :: "mcp_process \<Rightarrow> string \<Rightarrow> conn_state" where
  "connection_state s name =
     (case connectionStatus s name of
        None \<Rightarrow> Disconnected
      | Some st \<Rightarrow> if connected st then Connected else Failed)"

text \<open>
  What every operation keeps true of the registry: a name has a client exactly when it
  has a transport, and both were constructed in the same attempt.
\<close>

fun transport_of :: "Client \<Rightarrow> StdioClientTransport" where
  "transport_of (ClientObj n) = Transport n"

definition paired :: "mcp_process \<Rightarrow> bool" where
  "paired s = (\<forall>name. transports s name = map_option transport_of (clients s name))"

text \<open>And a name with no status has no client.\<close>

definition registered :: "mcp_process \<Rightarrow> bool" where
  "registered s = (\<forall>name. connectionStatus s name = None \<longrightarrow> clients s name = None)"

subsection \<open>The Draw.io operations\<close>

record Position =
  pos_x :: real
  pos_y :: real

definition styles :: "(string \<times> string) list" where
  "styles =
     [(''rectangle'', ''whiteSpace=wrap;html=1;fillColor=#dae8fc;strokeColor=#6c8ebf;''),
      (''ellipse'', ''ellipse;whiteSpace=wrap;html=1;fillColor=#d5e8d4;strokeColor=#82b366;''),
      (''cloud'', ''ellipse;shape=cloud;whiteSpace=wrap;html=1;fillColor=#fff2cc;strokeColor=#d6b656;''),
      (''cylinder'', ''shape=cylinder3;whiteSpace=wrap;html=1;fillColor=#f8cecc;strokeColor=#b85450;''),
      (''actor'', ''shape=umlActor;verticalLabelPosition=bottom;verticalAlign=top;html=1;fillColor=#e1d5e7;strokeColor=#9673a6;''),
      (''default'', ''whiteSpace=wrap;html=1;fillColor=#dae8fc;strokeColor=#6c8ebf;'')]"

text \<open>\<open>styles[type] || styles.default\<close>.\<close>

definition getShapeStyle :: "string \<Rightarrow> js_value" where
  "getShapeStyle shapeType = js_or (property_get styles shapeType) (property_get styles ''default'')"

text \<open>
  \<open>createShape\<close>: \<open>width\<close> and \<open>height\<close> are \<open>None\<close> when the caller leaves them out, and
  then take the defaults 120 and 60. The result is \<open>result[0]?.text || ''\<close>.
\<close>

definition createShape ::
  "tool_reply \<Rightarrow> string \<Rightarrow> string \<Rightarrow> Position \<Rightarrow> real option \<Rightarrow> real option \<Rightarrow> mcp_process
     \<Rightarrow> (thrown + string) \<times> mcp_process" where
  "createShape reply shapeType label position width height s =
     (case callTool reply ''drawio'' ''mcp_drawio_add_rectangle''
             [(''text'', JsString label),
              (''x'', JsNumber (pos_x position)),
              (''y'', JsNumber (pos_y position)),
              (''width'', JsNumber (case width of None \<Rightarrow> 120 | Some w \<Rightarrow> w)),
              (''height'', JsNumber (case height of None \<Rightarrow> 60 | Some h \<Rightarrow> h)),
              (''style'', getShapeStyle shapeType)] s of
        (Inl e, s') \<Rightarrow> (Inl e, s')
      | (Inr result, s') \<Rightarrow>
          (Inr (case result of TextItem t # rest \<Rightarrow> t | _ \<Rightarrow> ''''), s'))"

text \<open>
  \<open>applyLayout\<close> writes one line to the console and returns; \<open>exportDiagram\<close> throws.
  Console output is not part of the state. \<open>algorithm\<close> and \<open>format\<close> are \<open>None\<close> when the
  caller leaves them out (they then default to \<open>'hierarchical'\<close> and \<open>'xml'\<close>, which only
  the console line shows).
\<close>

definition applyLayout :: "string option \<Rightarrow> mcp_process \<Rightarrow> (thrown + unit) \<times> mcp_process" where
  "applyLayout algorithm s = (Inr (), s)"

definition exportDiagram :: "string option \<Rightarrow> mcp_process \<Rightarrow> (thrown + string) \<times> mcp_process" where
  "exportDiagram format s = (Inl (JsError ''Export not yet implemented''), s)"

subsection \<open>The states the object can be in\<close>

text \<open>
  A new object, and whatever the public operations make of it, whatever the world
  answers.
\<close>

inductive reachable :: "mcp_process \<Rightarrow> bool" where
  reach_new: "reachable new_MCPClient"
| reach_connect: "reachable s \<Longrightarrow> reachable (snd (connect io config s))"
| reach_disconnect: "reachable s \<Longrightarrow> reachable (snd (disconnect closeClient closeTransport name s))"
| reach_reconnect:
    "reachable s \<Longrightarrow> reachable (snd (reconnect closeClient closeTransport io name config s))"
| reach_healthCheck: "reachable s \<Longrightarrow> reachable (snd (healthCheck listed now name s))"
| reach_callTool: "reachable s \<Longrightarrow> reachable (snd (callTool reply name toolName params s))"
| reach_createShape:
    "reachable s \<Longrightarrow> reachable (snd (createShape reply shapeType label position width height s))"
| reach_applyLayout: "reachable s \<Longrightarrow> reachable (snd (applyLayout algorithm s))"
| reach_exportDiagram: "reachable s \<Longrightarrow> reachable (snd (exportDiagram format s))"

section \<open>SessionManager: the session store\<close>

subsection \<open>Types\<close>

datatype LLMProvider = OpenAI | Anthropic | Bedrock | Google

record ConfigState =
  provider :: LLMProvider
  apiKey :: string
  model :: string
  temperature :: "real option"
  maxTokens :: "nat option"

record DiagramMetadata =
  title :: string
  diagram_createdAt :: date
  modifiedAt :: date
  elementCount :: nat
  bounds_width :: real
  bounds_height :: real

record DiagramData =
  diagram_id :: string
  diagram_format :: string
  diagram_content :: string
  diagram_metadata :: DiagramMetadata

datatype Role = RoleUser | RoleAssistant | RoleSystem

record MessageMetadata =
  tokenCount :: "nat option"
  processingTime :: "real option"
  message_error :: "string option"

record Message =
  message_id :: string
  sessionId :: string
  role :: Role
  message_content :: string
  timestamp :: date
  diagramSnapshot :: "DiagramData option"
  metadata :: "MessageMetadata option"

record Session =
  session_id :: string
  createdAt :: date
  lastAccessedAt :: date
  chatHistory :: "Message list"
  currentDiagram :: "DiagramData option"
  config :: ConfigState

text \<open>
  \<open>Partial<Session>\<close>: every field may be left out. \<open>currentDiagram\<close> may be supplied as
  \<open>null\<close>, which is \<open>Some None\<close>.
\<close>

record Partial_Session =
  given_id :: "string option"
  given_createdAt :: "date option"
  given_lastAccessedAt :: "date option"
  given_chatHistory :: "Message list option"
  given_currentDiagram :: "DiagramData option option"
  given_config :: "ConfigState option"

text \<open>
  The text columns of a row. \<open>Iso t\<close> is the ISO-8601 text \<open>toISOString()\<close> writes for the
  instant \<open>t\<close>, which \<open>new Date(text)\<close> reads back; \<open>Json v\<close> is the text
  \<open>JSON.stringify(v)\<close>, which \<open>JSON.parse\<close> reads back. The encodings themselves are not
  modelled: the round trip is taken to be lossless, as it is for the values
  \<open>createSession\<close> writes (the dates nested inside messages and diagrams would come back
  as their ISO text). SQLite compares two such texts byte by byte, and for the
  fixed-width text of the years 0000 to 9999 that is the order of the instants.
\<close>

datatype iso_text = Iso date

datatype 'a json_text = Json 'a

fun toISOString :: "date \<Rightarrow> iso_text" where
  "toISOString t = Iso t"

fun new_Date :: "iso_text \<Rightarrow> date" where
  "new_Date (Iso t) = t"

fun JSON_stringify :: "'a \<Rightarrow> 'a json_text" where
  "JSON_stringify v = Json v"

fun JSON_parse :: "'a json_text \<Rightarrow> 'a" where
  "JSON_parse (Json v) = v"

fun text_less :: "iso_text \<Rightarrow> iso_text \<Rightarrow> bool" where
  "text_less (Iso a) (Iso b) = (a < b)"

record SessionRow =
  row_id :: string
  created_at :: iso_text
  last_accessed_at :: iso_text
  chat_history :: "Message list json_text"
  current_diagram :: "DiagramData json_text option"
  row_config :: "ConfigState json_text"

subsection \<open>The database\<close>

text \<open>
  The \<open>Database\<close> object: whether its handle is set, the rows of the table \<open>sessions\<close> in
  the order they were inserted, and what SQLite will report for the calls to come
  (\<open>Some e\<close>: the call fails with \<open>e\<close> and changes nothing; \<open>None\<close>, or nothing pending:
  the statement runs).
\<close>

record Database =
  handle_set :: bool
  sessions :: "SessionRow list"
  pending :: "thrown option list"

definition sqlite_reports :: "Database \<Rightarrow> thrown option \<times> Database" where
  "sqlite_reports d =
     (case pending d of
        [] \<Rightarrow> (None, d)
      | f # fs \<Rightarrow> (f, d\<lparr>pending := fs\<rparr>))"

definition database_run ::
  "(SessionRow list \<Rightarrow> thrown + SessionRow list) \<Rightarrow> Database \<Rightarrow> (thrown + unit) \<times> Database" where
  "database_run statement d =
     (if \<not> handle_set d then (Inl (JsError ''Database not connected''), d)
      else case sqlite_reports d of
             (Some e, d') \<Rightarrow> (Inl e, d')
           | (None, d') \<Rightarrow>
               (case statement (sessions d') of
                  Inl e \<Rightarrow> (Inl e, d')
                | Inr rows \<Rightarrow> (Inr (), d'\<lparr>sessions := rows\<rparr>)))"

definition database_get ::
  "(SessionRow list \<Rightarrow> 'a option) \<Rightarrow> Database \<Rightarrow> (thrown + 'a option) \<times> Database" where
  "database_get query d =
     (if \<not> handle_set d then (Inl (JsError ''Database not connected''), d)
      else case sqlite_reports d of
             (Some e, d') \<Rightarrow> (Inl e, d')
           | (None, d') \<Rightarrow> (Inr (query (sessions d')), d'))"

definition database_all ::
  "(SessionRow list \<Rightarrow> 'a list) \<Rightarrow> Database \<Rightarrow> (thrown + 'a list) \<times> Database" where
  "database_all query d =
     (if \<not> handle_set d then (Inl (JsError ''Database not connected''), d)
      else case sqlite_reports d of
             (Some e, d') \<Rightarrow> (Inl e, d')
           | (None, d') \<Rightarrow> (Inr (query (sessions d')), d'))"

text \<open>
  The five statements of \<open>SessionManager\<close>. The column \<open>id\<close> is the primary key, so an
  insert of an id that is already there fails.
\<close>

definition constraint_failed :: thrown where
  "constraint_failed = JsError ''SQLITE_CONSTRAINT: UNIQUE constraint failed: sessions.id''"

definition sql_insert :: "SessionRow \<Rightarrow> SessionRow list \<Rightarrow> thrown + SessionRow list" where
  "sql_insert r rows =
     (if row_id r \<in> set (map row_id rows) then Inl constraint_failed else Inr (rows @ [r]))"

definition sql_select_by_id :: "string \<Rightarrow> SessionRow list \<Rightarrow> SessionRow option" where
  "sql_select_by_id i rows = find (\<lambda>r. row_id r = i) rows"

definition sql_update ::
  "iso_text \<Rightarrow> Message list json_text \<Rightarrow> DiagramData json_text option \<Rightarrow> ConfigState json_text
     \<Rightarrow> string \<Rightarrow> SessionRow list \<Rightarrow> thrown + SessionRow list" where
  "sql_update accessed history diagram cfg i rows =
     Inr (map (\<lambda>r. if row_id r = i
                    then r\<lparr>last_accessed_at := accessed, chat_history := history,
                           current_diagram := diagram, row_config := cfg\<rparr>
                    else r) rows)"

definition sql_delete :: "string \<Rightarrow> SessionRow list \<Rightarrow> thrown + SessionRow list" where
  "sql_delete i rows = Inr (filter (\<lambda>r. row_id r \<noteq> i) rows)"

text \<open>
  \<open>SELECT id FROM sessions WHERE last_accessed_at < ?\<close> has no \<open>ORDER BY\<close>. SQLite answers
  it by walking the index \<open>idx_last_accessed\<close>, so the ids come with the oldest
  \<open>last_accessed_at\<close> first, and rows with the same text in the order they were inserted.
\<close>

definition sql_select_expired :: "iso_text \<Rightarrow> SessionRow list \<Rightarrow> string list" where
  "sql_select_expired cutoff rows =
     map row_id
       (sort_key (\<lambda>r. new_Date (last_accessed_at r))
          (filter (\<lambda>r. text_less (last_accessed_at r) cutoff) rows))"

subsection \<open>The operations\<close>

definition default_config :: ConfigState where
  "default_config =
     \<lparr>provider = OpenAI, apiKey = [], model = ''gpt-4'', temperature = None, maxTokens = None\<rparr>"

text \<open>
  \<open>createSession\<close>: \<open>uuid\<close> is what \<open>randomUUID()\<close> returns, \<open>t1\<close> and \<open>t2\<close> what the two
  \<open>new Date()\<close> of the object literal read, in that order.
\<close>

definition createSession ::
  "string \<Rightarrow> date \<Rightarrow> date \<Rightarrow> Database \<Rightarrow> (thrown + Session) \<times> Database" where
  "createSession uuid t1 t2 d =
     (let session = \<lparr>session_id = uuid, createdAt = t1, lastAccessedAt = t2,
                      chatHistory = [], currentDiagram = None, config = default_config\<rparr>
      in case database_run
                (sql_insert \<lparr>row_id = session_id session,
                             created_at = toISOString (createdAt session),
                             last_accessed_at = toISOString (lastAccessedAt session),
                             chat_history = JSON_stringify (chatHistory session),
                             current_diagram = None,
                             row_config = JSON_stringify (config session)\<rparr>) d of
           (Inl e, d') \<Rightarrow> (Inl e, d')
         | (Inr u, d') \<Rightarrow> (Inr session, d'))"

definition rowToSession :: "SessionRow \<Rightarrow> Session" where
  "rowToSession r =
     \<lparr>session_id = row_id r,
      createdAt = new_Date (created_at r),
      lastAccessedAt = new_Date (last_accessed_at r),
      chatHistory = JSON_parse (chat_history r),
      currentDiagram = (case current_diagram r of None \<Rightarrow> None | Some j \<Rightarrow> Some (JSON_parse j)),
      config = JSON_parse (row_config r)\<rparr>"

text \<open>\<open>getSession\<close>: \<open>Inr None\<close> is the \<open>null\<close> it returns when there is no row.\<close>

definition getSession :: "string \<Rightarrow> Database \<Rightarrow> (thrown + Session option) \<times> Database" where
  "getSession i d =
     (case database_get (sql_select_by_id i) d of
        (Inl e, d') \<Rightarrow> (Inl e, d')
      | (Inr None, d') \<Rightarrow> (Inr None, d')
      | (Inr (Some r), d') \<Rightarrow> (Inr (Some (rowToSession r)), d'))"

text \<open>\<open>{...session, ...data}\<close>.\<close>

definition spread :: "Session \<Rightarrow> Partial_Session \<Rightarrow> Session" where
  "spread session data =
     \<lparr>session_id = (case given_id data of None \<Rightarrow> session_id session | Some v \<Rightarrow> v),
      createdAt = (case given_createdAt data of None \<Rightarrow> createdAt session | Some v \<Rightarrow> v),
      lastAccessedAt =
        (case given_lastAccessedAt data of None \<Rightarrow> lastAccessedAt session | Some v \<Rightarrow> v),
      chatHistory = (case given_chatHistory data of None \<Rightarrow> chatHistory session | Some v \<Rightarrow> v),
      currentDiagram =
        (case given_currentDiagram data of None \<Rightarrow> currentDiagram session | Some v \<Rightarrow> v),
      config = (case given_config data of None \<Rightarrow> config session | Some v \<Rightarrow> v)\<rparr>"

definition session_not_found :: "string \<Rightarrow> thrown" where
  "session_not_found i = JsError (''Session '' @ i @ '' not found'')"

text \<open>\<open>updateSession\<close>: \<open>now\<close> is what its \<open>new Date()\<close> reads.\<close>

definition updateSession ::
  "date \<Rightarrow> string \<Rightarrow> Partial_Session \<Rightarrow> Database \<Rightarrow> (thrown + unit) \<times> Database" where
  "updateSession now i data d =
     (case getSession i d of
        (Inl e, d') \<Rightarrow> (Inl e, d')
      | (Inr None, d') \<Rightarrow> (Inl (session_not_found i), d')
      | (Inr (Some session), d') \<Rightarrow>
          let updated = (spread session data)\<lparr>lastAccessedAt := now\<rparr>
          in database_run
               (sql_update (toISOString (lastAccessedAt updated))
                  (JSON_stringify (chatHistory updated))
                  (case currentDiagram updated of
                     None \<Rightarrow> None
                   | Some dg \<Rightarrow> Some (JSON_stringify dg))
                  (JSON_stringify (config updated))
                  i) d')"

definition deleteSession :: "string \<Rightarrow> Database \<Rightarrow> (thrown + unit) \<times> Database" where
  "deleteSession i d = database_run (sql_delete i) d"

text \<open>
  The loop of \<open>cleanupExpiredSessions\<close>: nothing catches what \<open>deleteSession\<close> throws, so
  the first failure leaves the loop.
\<close>

fun delete_each :: "string list \<Rightarrow> Database \<Rightarrow> (thrown + unit) \<times> Database" where
  "delete_each [] d = (Inr (), d)"
| "delete_each (i # ids) d =
     (case deleteSession i d of
        (Inl e, d') \<Rightarrow> (Inl e, d')
      | (Inr u, d') \<Rightarrow> delete_each ids d')"

definition hours :: "int \<Rightarrow> int" where
  "hours n = n * 60 * 60 * 1000"

text \<open>
  The time zone of the process: the offset of local time from UTC that is in effect at
  an instant, and the offset the zone gives to a time read off the local wall clock
  (the two arguments \<open>true\<close> and \<open>false\<close> of the language's \<open>LocalTZA\<close>).
\<close>

record time_zone =
  offset_at :: "date \<Rightarrow> int"
  offset_of_wall :: "date \<Rightarrow> int"

text \<open>
  \<open>expiryTime.setHours(expiryTime.getHours() - 24)\<close>: the instant is turned into local
  wall-clock time, the wall clock is moved back by 24 hours, and the result is turned
  back into an instant. Across a change of the local clock that is 23 or 25 hours of
  time.
\<close>

definition setHours_minus_24 :: "time_zone \<Rightarrow> date \<Rightarrow> date" where
  "setHours_minus_24 zone t =
     (let wall = t + offset_at zone t;
          moved = wall - hours 24
      in moved - offset_of_wall zone moved)"

text \<open>
  \<open>cleanupExpiredSessions\<close>: \<open>zone\<close> is the time zone of the process and \<open>now\<close> what its
  \<open>new Date()\<close> reads. The number returned is the one the last line prints:
  \<open>Cleaned up n expired sessions\<close>.
\<close>

definition cleanupExpiredSessions ::
  "time_zone \<Rightarrow> date \<Rightarrow> Database \<Rightarrow> (thrown + nat) \<times> Database" where
  "cleanupExpiredSessions zone now d =
     (let expiryTime = setHours_minus_24 zone now
      in case database_all (sql_select_expired (toISOString expiryTime)) d of
           (Inl e, d') \<Rightarrow> (Inl e, d')
         | (Inr expiredSessions, d') \<Rightarrow>
             (case delete_each expiredSessions d' of
                (Inl e, d'') \<Rightarrow> (Inl e, d'')
              | (Inr u, d'') \<Rightarrow> (Inr (length expiredSessions), d'')))"

text \<open>A database that answers: the handle is set and no failure is pending.\<close>

definition answering :: "Database \<Rightarrow> bool" where
  "answering d = (handle_set d \<and> pending d = [])"

text \<open>The primary key: no two rows of the table share an id.\<close>

definition primary_key :: "Database \<Rightarrow> bool" where
  "primary_key d = distinct (map row_id (sessions d))"

text \<open>
  Whether a row qualifies at \<open>now\<close> under the 24-hour retention window, and the
  qualifying rows of a table in the order of their last access, oldest first.
\<close>

definition expired :: "date \<Rightarrow> SessionRow \<Rightarrow> bool" where
  "expired now r = (new_Date (last_accessed_at r) < now - hours 24)"

definition candidates :: "date \<Rightarrow> SessionRow list \<Rightarrow> SessionRow list" where
  "candidates now rows = sort_key (\<lambda>r. new_Date (last_accessed_at r)) (filter (expired now) rows)"

text \<open>
  The local clock was not changed during the 24 hours before \<open>now\<close>: the wall-clock
  time 24 hours back has the offset that is in effect at \<open>now\<close>.
\<close>

definition steady :: "time_zone \<Rightarrow> date \<Rightarrow> bool" where
  "steady zone now =
     (offset_of_wall zone (now + offset_at zone now - hours 24) = offset_at zone now)"

section \<open>Example runs\<close>

definition drawio_config :: MCPServerConfig where
  "drawio_config =
     \<lparr>cfg_name = ''drawio'', command = ''npx'', args = [''drawio-mcp-server''], env = None\<rparr>"

text \<open>A server that answers every attempt, one that never does, and one that is up at
  the third attempt.\<close>

definition server_up :: "nat \<Rightarrow> attempt_result \<times> date" where
  "server_up i = (Established [], 1000)"

definition server_down :: "nat \<Rightarrow> attempt_result \<times> date" where
  "server_down i = (ConnectThrows (JsError ''spawn npx ENOENT''), 1000 + int i)"

definition server_up_late :: "nat \<Rightarrow> attempt_result \<times> date" where
  "server_up_late i =
     (if i < 2 then (ListToolsThrows (JsError ''Request timed out''), 1000 + int i)
      else (Established [], 5000))"

definition connected_drawio :: mcp_process where
  "connected_drawio = snd (connect server_up drawio_config new_MCPClient)"

definition failed_check_drawio :: mcp_process where
  "failed_check_drawio =
     snd (healthCheck (Some (JsError ''Connection closed'')) 2000 ''drawio'' connected_drawio)"

text \<open>
  A store read at \<open>hours 25\<close>: session \<open>a\<close> was last accessed 25 hours before, \<open>b\<close> 30
  hours before and \<open>c\<close> one hour before.
\<close>

definition row_at :: "string \<Rightarrow> date \<Rightarrow> SessionRow" where
  "row_at i t =
     \<lparr>row_id = i, created_at = toISOString t, last_accessed_at = toISOString t,
      chat_history = JSON_stringify [], current_diagram = None,
      row_config = JSON_stringify default_config\<rparr>"

definition three_sessions :: Database where
  "three_sessions =
     \<lparr>handle_set = True,
      sessions = [row_at ''a'' 0, row_at ''b'' (hours (- 5)), row_at ''c'' (hours 24)],
      pending = []\<rparr>"

definition empty_store :: Database where
  "empty_store = \<lparr>handle_set = True, sessions = [], pending = []\<rparr>"

text \<open>
  The same store when SQLite is about to answer the next call and fail the one after
  it: for \<open>cleanupExpiredSessions\<close> the select succeeds and the first delete fails.
\<close>

definition three_sessions_busy :: Database where
  "three_sessions_busy = three_sessions\<lparr>pending := [None, Some (JsError ''SQLITE_BUSY'')]\<rparr>"

text \<open>And when the select and the first delete succeed and the second delete fails.\<close>

definition three_sessions_busy_later :: Database where
  "three_sessions_busy_later =
     three_sessions\<lparr>pending := [None, None, Some (JsError ''SQLITE_BUSY'')]\<rparr>"

text \<open>
  A process running on UTC, and one in a zone that is one hour ahead of UTC until the
  instant \<open>hours 10\<close> and two hours ahead from then on (its wall clock jumps from 11
  to 12 o'clock).
\<close>

definition utc :: time_zone where
  "utc = \<lparr>offset_at = (\<lambda>t. 0), offset_of_wall = (\<lambda>w. 0)\<rparr>"

definition spring_forward :: time_zone where
  "spring_forward =
     \<lparr>offset_at = (\<lambda>t. if t < hours 10 then hours 1 else hours 2),
      offset_of_wall = (\<lambda>w. if w < hours 11 then hours 1 else hours 2)\<rparr>"

text \<open>A store with one session last accessed at \<open>hours 1\<close> plus half an hour.\<close>

definition one_session :: Database where
  "one_session =
     \<lparr>handle_set = True, sessions = [row_at ''d'' (hours 1 + 1800000)], pending = []\<rparr>"

text \<open>A partial session that supplies an id, both dates and a chat history.\<close>

definition hello :: Message where
  "hello =
     \<lparr>message_id = ''1'', sessionId = ''c'', role = RoleUser, message_content = ''hello'',
      timestamp = hours 25, diagramSnapshot = None, metadata = None\<rparr>"

definition some_fields :: Partial_Session where
  "some_fields =
     \<lparr>given_id = Some ''zz'', given_createdAt = Some 7, given_lastAccessedAt = Some 7,
      given_chatHistory = Some [hello], given_currentDiagram = None, given_config = None\<rparr>"

section \<open>The connection manager: what connect does\<close>

subsection \<open>One attempt, and the three ways the retry loop can go\<close>

lemma connect_try_fst:
  "fst (connect_try r now cfg s) = (if failed r then Some (thrown_by r) else None)"
  by (cases r) (simp_all add: connect_try_def Let_def)

lemma connect_try_status:
  "connectionStatus (snd (connect_try r now cfg s)) =
     (case r of
        Established ts \<Rightarrow> (connectionStatus s)(cfg_name cfg \<mapsto>
          \<lparr>connected = True, serverName = cfg_name cfg, lastChecked = now, error = None\<rparr>)
      | _ \<Rightarrow> connectionStatus s)"
  by (cases r) (simp_all add: connect_try_def Let_def)

lemma connect_try_retry:
  "retryAttempts (snd (connect_try r now cfg s)) =
     (if failed r then retryAttempts s else (retryAttempts s)(cfg_name cfg \<mapsto> 0))"
  by (cases r) (simp_all add: connect_try_def Let_def)

lemma connect_try_constructed:
  "constructed (snd (connect_try r now cfg s)) = Suc (constructed s)"
  by (cases r) (simp_all add: connect_try_def Let_def)

lemma connect_try_clients:
  "clients (snd (connect_try r now cfg s)) =
     (case r of
        ConnectThrows e \<Rightarrow> clients s
      | _ \<Rightarrow> (clients s)(cfg_name cfg \<mapsto> ClientObj (constructed s)))"
  by (cases r) (simp_all add: connect_try_def Let_def)

lemma connect_try_transports:
  "transports (snd (connect_try r now cfg s)) =
     (case r of
        ConnectThrows e \<Rightarrow> transports s
      | _ \<Rightarrow> (transports s)(cfg_name cfg \<mapsto> Transport (constructed s)))"
  by (cases r) (simp_all add: connect_try_def Let_def)

lemma connect_try_tools:
  "tools (snd (connect_try r now cfg s)) =
     (case r of
        Established ts \<Rightarrow> (tools s)(cfg_name cfg \<mapsto> ts)
      | _ \<Rightarrow> tools s)"
  by (cases r) (simp_all add: connect_try_def Let_def)

lemmas connect_try_fields =
  connect_try_status connect_try_retry connect_try_constructed connect_try_clients
  connect_try_transports connect_try_tools

lemma connectWithRetry_done:
  assumes "fst (io a) = Established ts"
  shows "connectWithRetry io cfg a s =
           (Inr (), snd (connect_try (Established ts) (snd (io a)) cfg s))"
  using assms
  by (subst connectWithRetry.simps)
     (simp add: connect_try_def Let_def)

lemma connectWithRetry_again:
  assumes "failed (fst (io a))" and "a < MAX_RETRIES"
  shows "connectWithRetry io cfg a s =
           connectWithRetry io cfg (Suc a)
             ((snd (connect_try (fst (io a)) (snd (io a)) cfg s))
                \<lparr>retryAttempts :=
                   (retryAttempts (snd (connect_try (fst (io a)) (snd (io a)) cfg s)))
                     (cfg_name cfg \<mapsto> Suc a),
                 slept := slept (snd (connect_try (fst (io a)) (snd (io a)) cfg s))
                            @ [BASE_DELAY * 2 ^ a]\<rparr>)"
proof -
  obtain e s' where r: "connect_try (fst (io a)) (snd (io a)) cfg s = (Some e, s')"
    using assms(1) connect_try_fst [of "fst (io a)" "snd (io a)" cfg s]
    by (cases "connect_try (fst (io a)) (snd (io a)) cfg s") simp
  show ?thesis
    by (subst connectWithRetry.simps) (simp add: r assms(2))
qed

lemma connectWithRetry_exhausted:
  assumes "failed (fst (io a))" and "\<not> a < MAX_RETRIES"
  shows "connectWithRetry io cfg a s =
           (Inl (thrown_by (fst (io a))),
            (snd (connect_try (fst (io a)) (snd (io a)) cfg s))
               \<lparr>connectionStatus :=
                  (connectionStatus (snd (connect_try (fst (io a)) (snd (io a)) cfg s)))
                    (cfg_name cfg \<mapsto>
                       \<lparr>connected = False, serverName = cfg_name cfg,
                        lastChecked = snd (io a),
                        error = Some (errorMessage (thrown_by (fst (io a))))\<rparr>)\<rparr>)"
proof -
  obtain s' where r: "connect_try (fst (io a)) (snd (io a)) cfg s = (Some (thrown_by (fst (io a))), s')"
    using assms(1) connect_try_fst [of "fst (io a)" "snd (io a)" cfg s]
    by (cases "connect_try (fst (io a)) (snd (io a)) cfg s") simp
  show ?thesis
    by (subst connectWithRetry.simps) (simp add: r assms(2))
qed

text \<open>An induction principle that follows the three ways an attempt can go.\<close>

lemma connectWithRetry_induct3:
  assumes est: "\<And>a s ts. fst (io a) = Established ts \<Longrightarrow>
            P a s (Inr (), snd (connect_try (Established ts) (snd (io a)) cfg s))"
    and again: "\<And>a s. failed (fst (io a)) \<Longrightarrow> a < MAX_RETRIES \<Longrightarrow>
            P (Suc a)
              ((snd (connect_try (fst (io a)) (snd (io a)) cfg s))
                \<lparr>retryAttempts :=
                   (retryAttempts (snd (connect_try (fst (io a)) (snd (io a)) cfg s)))
                     (cfg_name cfg \<mapsto> Suc a),
                 slept := slept (snd (connect_try (fst (io a)) (snd (io a)) cfg s))
                            @ [BASE_DELAY * 2 ^ a]\<rparr>)
              (connectWithRetry io cfg (Suc a)
                ((snd (connect_try (fst (io a)) (snd (io a)) cfg s))
                \<lparr>retryAttempts :=
                   (retryAttempts (snd (connect_try (fst (io a)) (snd (io a)) cfg s)))
                     (cfg_name cfg \<mapsto> Suc a),
                 slept := slept (snd (connect_try (fst (io a)) (snd (io a)) cfg s))
                            @ [BASE_DELAY * 2 ^ a]\<rparr>))
            \<Longrightarrow> P a s (connectWithRetry io cfg (Suc a)
                ((snd (connect_try (fst (io a)) (snd (io a)) cfg s))
                \<lparr>retryAttempts :=
                   (retryAttempts (snd (connect_try (fst (io a)) (snd (io a)) cfg s)))
                     (cfg_name cfg \<mapsto> Suc a),
                 slept := slept (snd (connect_try (fst (io a)) (snd (io a)) cfg s))
                            @ [BASE_DELAY * 2 ^ a]\<rparr>))"
    and exh: "\<And>a s. failed (fst (io a)) \<Longrightarrow> \<not> a < MAX_RETRIES \<Longrightarrow>
            P a s (Inl (thrown_by (fst (io a))),
            (snd (connect_try (fst (io a)) (snd (io a)) cfg s))
               \<lparr>connectionStatus :=
                  (connectionStatus (snd (connect_try (fst (io a)) (snd (io a)) cfg s)))
                    (cfg_name cfg \<mapsto>
                       \<lparr>connected = False, serverName = cfg_name cfg,
                        lastChecked = snd (io a),
                        error = Some (errorMessage (thrown_by (fst (io a))))\<rparr>)\<rparr>)"
  shows "P a s (connectWithRetry io cfg a s)"
proof (induction "MAX_RETRIES - a" arbitrary: a s)
  case 0
  show ?case
  proof (cases "fst (io a)")
    case (Established ts)
    then show ?thesis using est [of a ts s] by (simp add: connectWithRetry_done)
  next
    case (ConnectThrows e)
    then have f: "failed (fst (io a))" by simp
    have n: "\<not> a < MAX_RETRIES" using 0 by simp
    show ?thesis using exh [OF f n, of s] by (simp add: connectWithRetry_exhausted [of io a, OF f n])
  next
    case (ListToolsThrows e)
    then have f: "failed (fst (io a))" by simp
    have n: "\<not> a < MAX_RETRIES" using 0 by simp
    show ?thesis using exh [OF f n, of s] by (simp add: connectWithRetry_exhausted [of io a, OF f n])
  qed
next
  case (Suc d)
  then have lt: "a < MAX_RETRIES" and d: "d = MAX_RETRIES - Suc a" by auto
  show ?case
  proof (cases "failed (fst (io a))")
    case True
    show ?thesis
      using again [OF True lt, of s] Suc.hyps(1) [OF d]
      by (simp add: connectWithRetry_again [of io a, OF True lt])
  next
    case False
    then obtain ts where "fst (io a) = Established ts" by (cases "fst (io a)") auto
    then show ?thesis using est [of a ts s] by (simp add: connectWithRetry_done)
  qed
qed

subsection \<open>Whole runs of connectWithRetry\<close>

lemma connectWithRetry_elsewhere:
  assumes "m \<noteq> cfg_name cfg"
  shows "clients (snd (connectWithRetry io cfg a s)) m = clients s m \<and>
         transports (snd (connectWithRetry io cfg a s)) m = transports s m \<and>
         connectionStatus (snd (connectWithRetry io cfg a s)) m = connectionStatus s m \<and>
         tools (snd (connectWithRetry io cfg a s)) m = tools s m \<and>
         retryAttempts (snd (connectWithRetry io cfg a s)) m = retryAttempts s m"
  using assms
  by (induction a s rule: connectWithRetry_induct3 [where io = io and cfg = cfg])
     (simp_all add: connect_try_fields split: attempt_result.splits)

lemma connect_try_paired:
  "paired s \<Longrightarrow> paired (snd (connect_try r now cfg s))"
  by (cases r) (simp_all add: paired_def connect_try_def Let_def)

lemma connectWithRetry_paired:
  "paired s \<Longrightarrow> paired (snd (connectWithRetry io cfg a s))"
proof (induction a s rule: connectWithRetry_induct3 [where io = io and cfg = cfg])
  case (1 a s ts)
  then show ?case by (simp add: connect_try_paired)
next
  case (2 a s)
  have "paired (snd (connect_try (fst (io a)) (snd (io a)) cfg s))"
    using 2 by (simp add: connect_try_paired)
  then show ?case using 2 by (simp add: paired_def)
next
  case (3 a s)
  have "paired (snd (connect_try (fst (io a)) (snd (io a)) cfg s))"
    using 3 by (simp add: connect_try_paired)
  then show ?case by (simp add: paired_def)
qed

lemma connectWithRetry_status_set:
  "connectionStatus (snd (connectWithRetry io cfg a s)) (cfg_name cfg) \<noteq> None"
  by (induction a s rule: connectWithRetry_induct3 [where io = io and cfg = cfg])
     (simp_all add: connect_try_fields)

lemma retry_succeeds:
  assumes "k \<le> MAX_RETRIES" and "a \<le> k"
    and "\<forall>i. a \<le> i \<and> i < k \<longrightarrow> failed (fst (io i))"
    and "fst (io k) = Established ts"
  shows "fst (connectWithRetry io cfg a s) = Inr () \<and>
         connectionStatus (snd (connectWithRetry io cfg a s)) (cfg_name cfg) =
           Some \<lparr>connected = True, serverName = cfg_name cfg,
                 lastChecked = snd (io k), error = None\<rparr> \<and>
         retryAttempts (snd (connectWithRetry io cfg a s)) (cfg_name cfg) = Some 0 \<and>
         constructed (snd (connectWithRetry io cfg a s)) = Suc (constructed s + (k - a)) \<and>
         clients (snd (connectWithRetry io cfg a s)) (cfg_name cfg) =
           Some (ClientObj (constructed s + (k - a))) \<and>
         transports (snd (connectWithRetry io cfg a s)) (cfg_name cfg) =
           Some (Transport (constructed s + (k - a))) \<and>
         tools (snd (connectWithRetry io cfg a s)) (cfg_name cfg) = Some ts"
  using assms
proof (induction "k - a" arbitrary: a s)
  case 0
  then have ak: "a = k" by simp
  have e: "fst (io k) = Established ts" using 0 by simp
  show ?case
    unfolding ak
    by (simp add: connectWithRetry_done [of io k ts, OF e] connect_try_fields)
next
  case (Suc d)
  then have f: "failed (fst (io a))" and lt: "a < MAX_RETRIES" by auto
  have "d = k - Suc a" "Suc a \<le> k" "\<forall>i. Suc a \<le> i \<and> i < k \<longrightarrow> failed (fst (io i))"
    using Suc by auto
  from Suc.hyps(1) [OF this(1) Suc.prems(1) this(2) this(3) Suc.prems(4)] \<open>Suc a \<le> k\<close>
  show ?case
    by (simp add: connectWithRetry_again [of io a, OF f lt] connect_try_fields)
qed

lemma retry_exhausts:
  assumes "a \<le> MAX_RETRIES"
    and "\<forall>i. a \<le> i \<and> i \<le> MAX_RETRIES \<longrightarrow> failed (fst (io i))"
  shows "fst (connectWithRetry io cfg a s) = Inl (thrown_by (fst (io MAX_RETRIES))) \<and>
         connectionStatus (snd (connectWithRetry io cfg a s)) (cfg_name cfg) =
           Some \<lparr>connected = False, serverName = cfg_name cfg,
                 lastChecked = snd (io MAX_RETRIES),
                 error = Some (errorMessage (thrown_by (fst (io MAX_RETRIES))))\<rparr> \<and>
         retryAttempts (snd (connectWithRetry io cfg a s)) (cfg_name cfg) =
           (if a < MAX_RETRIES then Some MAX_RETRIES else retryAttempts s (cfg_name cfg)) \<and>
         constructed (snd (connectWithRetry io cfg a s)) = Suc (constructed s + (MAX_RETRIES - a))"
  using assms
proof (induction "MAX_RETRIES - a" arbitrary: a s)
  case 0
  then have a: "a = MAX_RETRIES" by simp
  have f: "failed (fst (io MAX_RETRIES))" and n: "\<not> MAX_RETRIES < MAX_RETRIES" using 0 by auto
  show ?case
    unfolding a
    using f by (simp add: connectWithRetry_exhausted [of io MAX_RETRIES, OF f n] connect_try_fields)
next
  case (Suc d)
  then have f: "failed (fst (io a))" and lt: "a < MAX_RETRIES" by auto
  have "d = MAX_RETRIES - Suc a" "Suc a \<le> MAX_RETRIES"
       "\<forall>i. Suc a \<le> i \<and> i \<le> MAX_RETRIES \<longrightarrow> failed (fst (io i))"
    using Suc by auto
  from Suc.hyps(1) [OF this] \<open>Suc a \<le> MAX_RETRIES\<close>
  show ?case
    using lt f by (auto simp add: connectWithRetry_again [of io a, OF f lt] connect_try_fields)
qed

text \<open>Every run either meets a first attempt that succeeds or uses all its attempts.\<close>

lemma attempts_cases:
  "(\<exists>k ts. k \<le> MAX_RETRIES \<and> (\<forall>i<k. failed (fst (io i))) \<and> fst (io k) = Established ts) \<or>
   (\<forall>i\<le>MAX_RETRIES. failed (fst (io i)))"
proof (cases "\<forall>i\<le>MAX_RETRIES. failed (fst (io i))")
  case True
  then show ?thesis by simp
next
  case False
  then obtain j where j: "j \<le> MAX_RETRIES" "\<not> failed (fst (io j))" by auto
  define k where "k = (LEAST i. \<not> failed (fst (io i)))"
  have nk: "\<not> failed (fst (io k))" unfolding k_def using j(2) by (rule LeastI)
  have kj: "k \<le> j" unfolding k_def using j(2) by (rule Least_le)
  have before: "\<forall>i<k. failed (fst (io i))"
    unfolding k_def using not_less_Least by blast
  obtain ts where "fst (io k) = Established ts"
    using nk by (cases "fst (io k)") auto
  with before kj j(1) show ?thesis by (intro disjI1 exI [of _ k] exI [of _ ts]) simp
qed

lemma connect_ok_means_connected:
  assumes "fst (connect io cfg s) = Inr u"
  shows "retryAttempts (snd (connect io cfg s)) (cfg_name cfg) = Some 0 \<and>
         connection_state (snd (connect io cfg s)) (cfg_name cfg) = Connected \<and>
         clients (snd (connect io cfg s)) (cfg_name cfg) \<noteq> None"
proof -
  from attempts_cases [of io] show ?thesis
  proof
    assume "\<exists>k ts. k \<le> MAX_RETRIES \<and> (\<forall>i<k. failed (fst (io i))) \<and> fst (io k) = Established ts"
    then obtain k ts where k: "k \<le> MAX_RETRIES" "\<forall>i<k. failed (fst (io i))"
      "fst (io k) = Established ts" by blast
    from retry_succeeds [of k 0 io ts cfg s] k show ?thesis
      by (simp add: connect_def connection_state_def)
  next
    assume "\<forall>i\<le>MAX_RETRIES. failed (fst (io i))"
    with retry_exhausts [of 0 io cfg s] assms show ?thesis
      by (simp add: connect_def)
  qed
qed

subsection \<open>Invariants of the reachable states\<close>

lemma connect_keeps:
  assumes "paired s \<and> registered s"
  shows "paired (snd (connect io cfg s)) \<and> registered (snd (connect io cfg s))"
proof
  show "paired (snd (connect io cfg s))"
    using assms by (simp add: connect_def connectWithRetry_paired)
  show "registered (snd (connect io cfg s))"
    unfolding registered_def
  proof (intro allI impI)
    fix n
    assume none: "connectionStatus (snd (connect io cfg s)) n = None"
    then have "n \<noteq> cfg_name cfg"
      using connectWithRetry_status_set [of io cfg 0 s] by (auto simp: connect_def)
    then show "clients (snd (connect io cfg s)) n = None"
      using none assms connectWithRetry_elsewhere [of n cfg io 0 s]
      by (simp add: connect_def registered_def)
  qed
qed

lemma disconnect_keeps:
  assumes "paired s \<and> registered s"
  shows "paired (snd (disconnect cc ct name s)) \<and> registered (snd (disconnect cc ct name s))"
  using assms
  by (auto simp: disconnect_def paired_def registered_def Let_def
           split: option.splits StdioClientTransport.splits)

lemma healthCheck_keeps:
  assumes "paired s \<and> registered s"
  shows "paired (snd (healthCheck listed now name s)) \<and>
         registered (snd (healthCheck listed now name s))"
  using assms
  by (auto simp: healthCheck_def paired_def registered_def Let_def
           split: option.splits Client.splits)

lemma callTool_keeps:
  assumes "paired s \<and> registered s"
  shows "paired (snd (callTool reply name toolName params s)) \<and>
         registered (snd (callTool reply name toolName params s))"
  using assms
  by (auto simp: callTool_def paired_def registered_def Let_def
           split: option.splits Client.splits tool_reply.splits)

lemma createShape_snd:
  "snd (createShape reply shapeType label position width height s) =
   snd (callTool reply ''drawio'' ''mcp_drawio_add_rectangle''
          [(''text'', JsString label),
           (''x'', JsNumber (pos_x position)),
           (''y'', JsNumber (pos_y position)),
           (''width'', JsNumber (case width of None \<Rightarrow> 120 | Some w \<Rightarrow> w)),
           (''height'', JsNumber (case height of None \<Rightarrow> 60 | Some h \<Rightarrow> h)),
           (''style'', getShapeStyle shapeType)] s)"
  by (simp add: createShape_def split: prod.splits sum.splits)

lemma reachable_keeps: "reachable s \<Longrightarrow> paired s \<and> registered s"
proof (induction rule: reachable.induct)
  case reach_new
  show ?case by (simp add: new_MCPClient_def paired_def registered_def)
next
  case (reach_connect s io cfg)
  from reach_connect.IH show ?case by (rule connect_keeps)
next
  case (reach_disconnect s closeClient closeTransport name)
  from reach_disconnect.IH show ?case by (rule disconnect_keeps)
next
  case (reach_reconnect s closeClient closeTransport io name cfg)
  have d: "paired (snd (disconnect closeClient closeTransport name s)) \<and>
           registered (snd (disconnect closeClient closeTransport name s))"
    using reach_reconnect.IH by (rule disconnect_keeps)
  show ?case
  proof (cases "disconnect closeClient closeTransport name s")
    case (Pair r s')
    with d have s': "paired s' \<and> registered s'" by simp
    show ?thesis
    proof (cases r)
      case (Inl e)
      with Pair s' show ?thesis by (simp add: reconnect_def)
    next
      case (Inr u)
      with Pair connect_keeps [OF s', of io cfg] show ?thesis by (simp add: reconnect_def)
    qed
  qed
next
  case (reach_healthCheck s listed now name)
  from reach_healthCheck.IH show ?case by (rule healthCheck_keeps)
next
  case (reach_callTool s reply name toolName params)
  from reach_callTool.IH show ?case by (rule callTool_keeps)
next
  case (reach_createShape s reply shapeType label position width height)
  from reach_createShape.IH show ?case unfolding createShape_snd by (rule callTool_keeps)
next
  case (reach_applyLayout s algorithm)
  then show ?case by (simp add: applyLayout_def)
next
  case (reach_exportDiagram s format)
  then show ?case by (simp add: exportDiagram_def)
qed

lemma reachable_no_transport:
  "reachable s \<Longrightarrow> transports s name = None \<Longrightarrow> clients s name = None"
  using reachable_keeps [of s] by (auto simp: paired_def)

lemma reachable_disconnected:
  "reachable s \<Longrightarrow> connection_state s name = Disconnected \<Longrightarrow> clients s name = None"
  using reachable_keeps [of s]
  by (auto simp: registered_def connection_state_def split: option.splits if_splits)

subsection \<open>The example runs\<close>

lemma connected_drawio_fields:
  "clients connected_drawio ''drawio'' = Some (ClientObj 0)"
  "transports connected_drawio ''drawio'' = Some (Transport 0)"
  "connectionStatus connected_drawio ''drawio'' =
     Some \<lparr>connected = True, serverName = ''drawio'', lastChecked = 1000, error = None\<rparr>"
  "retryAttempts connected_drawio ''drawio'' = Some 0"
  "constructed connected_drawio = 1"
  "live connected_drawio = [(''drawio'', 0)]"
  "wire connected_drawio = [ListToolsRequest 0]"
  by (simp_all add: connected_drawio_def connect_def server_up_def drawio_config_def
        connectWithRetry_done [of server_up 0 "[]"] connect_try_def new_MCPClient_def)

lemma reachable_connected_drawio: "reachable connected_drawio"
  unfolding connected_drawio_def by (intro reachable.intros)

lemma failed_check_drawio_fields:
  "clients failed_check_drawio ''drawio'' = Some (ClientObj 0)"
  "connectionStatus failed_check_drawio ''drawio'' =
     Some \<lparr>connected = False, serverName = ''drawio'', lastChecked = 2000,
           error = Some ''Connection closed''\<rparr>"
  "retryAttempts failed_check_drawio ''drawio'' = Some 0"
  "wire failed_check_drawio = [ListToolsRequest 0, ListToolsRequest 0]"
  by (simp_all add: failed_check_drawio_def healthCheck_def connected_drawio_fields
        errorMessage_def)

section \<open>The connection manager: the claims\<close>

lemma below_max_attempts: "k < max_attempts \<longleftrightarrow> k \<le> MAX_RETRIES"
  by (auto simp: max_attempts_def)

text \<open>
  Claim C1 as the specification words it: \<open>connect\<close> on a name that is already
  Connected is a no-op, establishes no new transport, and at most one live transport
  exists per name. \<open>connect\<close> has no such check: it calls \<open>connectWithRetry(config, 0)\<close>
  whatever the state. On the connected \<open>drawio\<close> of the example runs a second
  \<open>connect\<close> constructs a second transport, stores it in place of the first, and leaves
  two live transports behind.
\<close>
theorem connect_while_connected_counterexample:
  "connection_state connected_drawio ''drawio'' = Connected \<and>
   fst (connect server_up drawio_config connected_drawio) = Inr () \<and>
   constructed connected_drawio = 1 \<and>
   constructed (snd (connect server_up drawio_config connected_drawio)) = 2 \<and>
   transports connected_drawio ''drawio'' = Some (Transport 0) \<and>
   transports (snd (connect server_up drawio_config connected_drawio)) ''drawio'' =
     Some (Transport 1) \<and>
   live (snd (connect server_up drawio_config connected_drawio)) =
     [(''drawio'', 0), (''drawio'', 1)]"
  by (simp add: connection_state_def connected_drawio_fields connect_def server_up_def
        drawio_config_def connectWithRetry_done [of server_up 0 "[]"] connect_try_def)

text \<open>
  Claim C1, amended: in every state, also when the name is already Connected,
  \<open>connect(config)\<close> runs a full attempt sequence. When the first \<open>k\<close> attempts fail and
  the next one succeeds (\<open>k\<close> below the number of attempts), it has constructed \<open>k + 1\<close>
  new transports and clients, stores the last of them under the name in place of
  whatever was stored there, stores the listed tools, ends Connected with retry count 0,
  and leaves the entries of every other name as they were.
\<close>
theorem connect_replaces_transport:
  assumes "k < max_attempts"
    and "\<forall>i<k. failed (fst (io i))"
    and "fst (io k) = Established ts"
  shows "fst (connect io cfg s) = Inr () \<and>
         constructed (snd (connect io cfg s)) = constructed s + k + 1 \<and>
         transports (snd (connect io cfg s)) (cfg_name cfg) = Some (Transport (constructed s + k)) \<and>
         clients (snd (connect io cfg s)) (cfg_name cfg) = Some (ClientObj (constructed s + k)) \<and>
         tools (snd (connect io cfg s)) (cfg_name cfg) = Some ts \<and>
         connection_state (snd (connect io cfg s)) (cfg_name cfg) = Connected \<and>
         retryAttempts (snd (connect io cfg s)) (cfg_name cfg) = Some 0 \<and>
         (\<forall>m. m \<noteq> cfg_name cfg \<longrightarrow>
            transports (snd (connect io cfg s)) m = transports s m \<and>
            clients (snd (connect io cfg s)) m = clients s m \<and>
            connectionStatus (snd (connect io cfg s)) m = connectionStatus s m \<and>
            tools (snd (connect io cfg s)) m = tools s m \<and>
            retryAttempts (snd (connect io cfg s)) m = retryAttempts s m)"
proof -
  have k: "k \<le> MAX_RETRIES" using assms(1) by (simp add: below_max_attempts)
  have f: "\<forall>i. 0 \<le> i \<and> i < k \<longrightarrow> failed (fst (io i))" using assms(2) by simp
  from retry_succeeds [OF k _ f assms(3), of cfg s]
  have here: "fst (connect io cfg s) = Inr () \<and>
         constructed (snd (connect io cfg s)) = constructed s + k + 1 \<and>
         transports (snd (connect io cfg s)) (cfg_name cfg) = Some (Transport (constructed s + k)) \<and>
         clients (snd (connect io cfg s)) (cfg_name cfg) = Some (ClientObj (constructed s + k)) \<and>
         tools (snd (connect io cfg s)) (cfg_name cfg) = Some ts \<and>
         connection_state (snd (connect io cfg s)) (cfg_name cfg) = Connected \<and>
         retryAttempts (snd (connect io cfg s)) (cfg_name cfg) = Some 0"
    by (simp add: connect_def connection_state_def)
  have there: "\<forall>m. m \<noteq> cfg_name cfg \<longrightarrow>
            transports (snd (connect io cfg s)) m = transports s m \<and>
            clients (snd (connect io cfg s)) m = clients s m \<and>
            connectionStatus (snd (connect io cfg s)) m = connectionStatus s m \<and>
            tools (snd (connect io cfg s)) m = tools s m \<and>
            retryAttempts (snd (connect io cfg s)) m = retryAttempts s m"
    using connectWithRetry_elsewhere [of _ cfg io 0 s] by (simp add: connect_def)
  from here there show ?thesis by simp
qed

text \<open>The amended C1 on the connected \<open>drawio\<close>, with a server that is up at the third attempt.\<close>
theorem connect_replaces_transport_witness:
  "fst (connect server_up_late drawio_config connected_drawio) = Inr () \<and>
   constructed (snd (connect server_up_late drawio_config connected_drawio)) = 4 \<and>
   transports (snd (connect server_up_late drawio_config connected_drawio)) ''drawio'' =
     Some (Transport 3) \<and>
   connection_state (snd (connect server_up_late drawio_config connected_drawio)) ''drawio'' =
     Connected \<and>
   retryAttempts (snd (connect server_up_late drawio_config connected_drawio)) ''drawio'' = Some 0"
proof -
  have k: "2 < max_attempts" by (simp add: max_attempts_def MAX_RETRIES_def)
  have f: "\<forall>i<2. failed (fst (server_up_late i))" by (simp add: server_up_late_def)
  have e: "fst (server_up_late 2) = Established []" by (simp add: server_up_late_def)
  have n: "cfg_name drawio_config = ''drawio''" by (simp add: drawio_config_def)
  from connect_replaces_transport [OF k f e, of drawio_config connected_drawio]
  show ?thesis unfolding n by (simp add: connected_drawio_fields)
qed

text \<open>
  Claim C2: the maximum attempt count is \<open>max_attempts\<close>, the first attempt and
  \<open>MAX_RETRIES\<close> retries. For every \<open>k\<close> strictly below it, a \<open>connect\<close> whose first \<open>k\<close>
  attempts fail and whose next attempt succeeds ends Connected with retry count 0. A
  \<open>connect\<close> whose attempts all fail ends Failed and rethrows the last error; the
  status it stores has \<open>connected: false\<close>, the date of the last attempt, and as its
  error the message of the last error when that is an \<open>Error\<close>, \<open>Unknown error\<close> when it
  is not. A \<open>connect\<close> after that starts again at attempt 0: with \<open>k\<close> failures and a
  success it ends Connected with retry count 0, and when it fails throughout it makes
  \<open>max_attempts\<close> attempts once more and ends with the same retry count as the first
  exhausted run, not with a count carried on.
\<close>
theorem connect_retry_budget:
  assumes "k < max_attempts"
    and "\<forall>i<k. failed (fst (io i))"
    and "fst (io k) = Established ts"
    and "\<forall>i<max_attempts. failed (fst (bad i))"
  shows "fst (connect io cfg s) = Inr () \<and>
         connection_state (snd (connect io cfg s)) (cfg_name cfg) = Connected \<and>
         retryAttempts (snd (connect io cfg s)) (cfg_name cfg) = Some 0 \<and>
         fst (connect bad cfg s) = Inl (thrown_by (fst (bad MAX_RETRIES))) \<and>
         connection_state (snd (connect bad cfg s)) (cfg_name cfg) = Failed \<and>
         connectionStatus (snd (connect bad cfg s)) (cfg_name cfg) =
           Some \<lparr>connected = False, serverName = cfg_name cfg,
                 lastChecked = snd (bad MAX_RETRIES),
                 error = Some (case thrown_by (fst (bad MAX_RETRIES)) of
                                 JsError m \<Rightarrow> m
                               | NonError \<Rightarrow> ''Unknown error'')\<rparr> \<and>
         retryAttempts (snd (connect bad cfg s)) (cfg_name cfg) = Some MAX_RETRIES \<and>
         fst (connect io cfg (snd (connect bad cfg s))) = Inr () \<and>
         connection_state (snd (connect io cfg (snd (connect bad cfg s)))) (cfg_name cfg) =
           Connected \<and>
         retryAttempts (snd (connect io cfg (snd (connect bad cfg s)))) (cfg_name cfg) = Some 0 \<and>
         retryAttempts (snd (connect bad cfg (snd (connect bad cfg s)))) (cfg_name cfg) =
           Some MAX_RETRIES \<and>
         constructed (snd (connect bad cfg (snd (connect bad cfg s)))) =
           constructed s + 2 * max_attempts"
proof -
  have k: "k \<le> MAX_RETRIES" using assms(1) by (simp add: below_max_attempts)
  have f: "\<forall>i. 0 \<le> i \<and> i < k \<longrightarrow> failed (fst (io i))" using assms(2) by simp
  have b: "\<forall>i. 0 \<le> i \<and> i \<le> MAX_RETRIES \<longrightarrow> failed (fst (bad i))"
    using assms(4) by (simp add: below_max_attempts)
  have pos: "0 < MAX_RETRIES" by (simp add: MAX_RETRIES_def)
  have good: "fst (connect io cfg t) = Inr () \<and>
         connection_state (snd (connect io cfg t)) (cfg_name cfg) = Connected \<and>
         retryAttempts (snd (connect io cfg t)) (cfg_name cfg) = Some 0" for t
    using retry_succeeds [OF k _ f assms(3), of cfg t]
    by (simp add: connect_def connection_state_def)
  have exhausted: "fst (connect bad cfg t) = Inl (thrown_by (fst (bad MAX_RETRIES))) \<and>
         connection_state (snd (connect bad cfg t)) (cfg_name cfg) = Failed \<and>
         connectionStatus (snd (connect bad cfg t)) (cfg_name cfg) =
           Some \<lparr>connected = False, serverName = cfg_name cfg,
                 lastChecked = snd (bad MAX_RETRIES),
                 error = Some (case thrown_by (fst (bad MAX_RETRIES)) of
                                 JsError m \<Rightarrow> m
                               | NonError \<Rightarrow> ''Unknown error'')\<rparr> \<and>
         retryAttempts (snd (connect bad cfg t)) (cfg_name cfg) = Some MAX_RETRIES \<and>
         constructed (snd (connect bad cfg t)) = constructed t + max_attempts" for t
    using retry_exhausts [OF _ b, of cfg t] pos
    by (simp add: connect_def connection_state_def max_attempts_def errorMessage_def)
  from good [of s] good [of "snd (connect bad cfg s)"]
    exhausted [of s] exhausted [of "snd (connect bad cfg s)"]
  show ?thesis by simp
qed

text \<open>C2 on a new object: a server up at the third attempt, and one that is never up.\<close>
theorem connect_retry_budget_witness:
  "fst (connect server_up_late drawio_config new_MCPClient) = Inr () \<and>
   connection_state (snd (connect server_up_late drawio_config new_MCPClient)) ''drawio'' =
     Connected \<and>
   retryAttempts (snd (connect server_up_late drawio_config new_MCPClient)) ''drawio'' = Some 0 \<and>
   fst (connect server_down drawio_config new_MCPClient) = Inl (JsError ''spawn npx ENOENT'') \<and>
   connection_state (snd (connect server_down drawio_config new_MCPClient)) ''drawio'' = Failed \<and>
   connectionStatus (snd (connect server_down drawio_config new_MCPClient)) ''drawio'' =
     Some \<lparr>connected = False, serverName = ''drawio'', lastChecked = 1003,
           error = Some ''spawn npx ENOENT''\<rparr> \<and>
   retryAttempts (snd (connect server_down drawio_config new_MCPClient)) ''drawio'' = Some 3 \<and>
   fst (connect server_up_late drawio_config
          (snd (connect server_down drawio_config new_MCPClient))) = Inr () \<and>
   retryAttempts (snd (connect server_up_late drawio_config
          (snd (connect server_down drawio_config new_MCPClient)))) ''drawio'' = Some 0 \<and>
   constructed (snd (connect server_down drawio_config
          (snd (connect server_down drawio_config new_MCPClient)))) = 8"
proof -
  have k: "2 < max_attempts" by (simp add: max_attempts_def MAX_RETRIES_def)
  have f: "\<forall>i<2. failed (fst (server_up_late i))" by (simp add: server_up_late_def)
  have e: "fst (server_up_late 2) = Established []" by (simp add: server_up_late_def)
  have b: "\<forall>i<max_attempts. failed (fst (server_down i))" by (simp add: server_down_def)
  have n: "cfg_name drawio_config = ''drawio''" by (simp add: drawio_config_def)
  have t: "thrown_by (fst (server_down MAX_RETRIES)) = JsError ''spawn npx ENOENT''"
    by (simp add: server_down_def)
  have l: "snd (server_down MAX_RETRIES) = 1003"
    by (simp add: server_down_def MAX_RETRIES_def)
  have c: "constructed new_MCPClient = 0" by (simp add: new_MCPClient_def)
  from connect_retry_budget [OF k f e b, of drawio_config new_MCPClient]
  show ?thesis
    unfolding n t l c by (simp add: MAX_RETRIES_def max_attempts_def)
qed

text \<open>
  Claim C3 as the specification words it: on every name that is not Connected,
  including one that is Failed after a failed health check, \<open>callTool\<close> fails at once
  with the not-connected error and does no transport I/O. \<open>callTool\<close> looks at the map
  \<open>clients\<close>, not at the status: after a failed health check the client is still there,
  the request goes out and its result comes back.
\<close>
theorem callTool_on_failed_counterexample:
  "connection_state failed_check_drawio ''drawio'' = Failed \<and>
   fst (callTool (ToolReturns [TextItem ''2'']) ''drawio'' ''mcp_drawio_delete_cell_by_id''
          [(''cell_id'', JsString ''2'')] failed_check_drawio) = Inr [TextItem ''2''] \<and>
   wire (snd (callTool (ToolReturns [TextItem ''2'']) ''drawio'' ''mcp_drawio_delete_cell_by_id''
          [(''cell_id'', JsString ''2'')] failed_check_drawio)) =
     wire failed_check_drawio @
       [CallToolRequest 0 ''mcp_drawio_delete_cell_by_id'' [(''cell_id'', JsString ''2'')]]"
  by (simp add: connection_state_def failed_check_drawio_fields callTool_def)

text \<open>
  Claim C3, amended: \<open>callTool\<close> fails at once with the not-connected error, without any
  transport I/O and without changing anything, when no client is stored for the name;
  that is the case for every Disconnected name of a reachable state. When a client is
  stored, whatever the status says (Connected, or Failed after a failed health check),
  the request is put on the wire and the tool's answer or error is handed on.
\<close>
theorem callTool_needs_client:
  "(clients s name = None \<longrightarrow>
      callTool reply name toolName params s = (Inl (not_connected name), s)) \<and>
   (reachable s \<and> connection_state s name = Disconnected \<longrightarrow>
      callTool reply name toolName params s = (Inl (not_connected name), s)) \<and>
   (\<forall>n. clients s name = Some (ClientObj n) \<longrightarrow>
      fst (callTool reply name toolName params s) =
        (case reply of ToolReturns c \<Rightarrow> Inr c | ToolThrows e \<Rightarrow> Inl e) \<and>
      snd (callTool reply name toolName params s) =
        s\<lparr>wire := wire s @ [CallToolRequest n toolName params]\<rparr>)"
proof (intro conjI impI allI)
  assume "clients s name = None"
  then show "callTool reply name toolName params s = (Inl (not_connected name), s)"
    by (simp add: callTool_def)
next
  assume "reachable s \<and> connection_state s name = Disconnected"
  then have "clients s name = None" by (simp add: reachable_disconnected)
  then show "callTool reply name toolName params s = (Inl (not_connected name), s)"
    by (simp add: callTool_def)
next
  fix n assume c: "clients s name = Some (ClientObj n)"
  show "fst (callTool reply name toolName params s) =
        (case reply of ToolReturns c \<Rightarrow> Inr c | ToolThrows e \<Rightarrow> Inl e)"
    using c by (simp add: callTool_def Let_def split: tool_reply.splits)
  show "snd (callTool reply name toolName params s) =
        s\<lparr>wire := wire s @ [CallToolRequest n toolName params]\<rparr>"
    using c by (simp add: callTool_def Let_def split: tool_reply.splits)
qed

text \<open>The amended C3 on a new object, which has no client, and on the connected \<open>drawio\<close>.\<close>
theorem callTool_needs_client_witness:
  "callTool (ToolReturns [TextItem ''2'']) ''drawio'' ''mcp_drawio_add_edge'' [] new_MCPClient =
     (Inl (JsError ''Not connected to MCP server: drawio''), new_MCPClient) \<and>
   connection_state new_MCPClient ''drawio'' = Disconnected \<and>
   snd (callTool (ToolThrows NonError) ''drawio'' ''mcp_drawio_add_edge'' [] connected_drawio) =
     connected_drawio\<lparr>wire := [ListToolsRequest 0, CallToolRequest 0 ''mcp_drawio_add_edge'' []]\<rparr>"
proof -
  have "connection_state new_MCPClient ''drawio'' = Disconnected"
    by (simp add: connection_state_def new_MCPClient_def)
  then have r: "reachable new_MCPClient \<and> connection_state new_MCPClient ''drawio'' = Disconnected"
    by (simp add: reachable.intros)
  have c: "clients connected_drawio ''drawio'' = Some (ClientObj 0)"
    by (simp add: connected_drawio_fields)
  from r c
    callTool_needs_client [of new_MCPClient "''drawio''" "ToolReturns [TextItem ''2'']"
      "''mcp_drawio_add_edge''" "[]"]
    callTool_needs_client [of connected_drawio "''drawio''" "ToolThrows NonError"
      "''mcp_drawio_add_edge''" "[]"]
  show ?thesis
    by (simp add: not_connected_def connected_drawio_fields)
qed

lemma failing_healthCheck_fields:
  "fst (healthCheck (Some e) now name s) = False"
  "retryAttempts (snd (healthCheck (Some e) now name s)) = retryAttempts s"
  "clients (snd (healthCheck (Some e) now name s)) = clients s"
  "transports (snd (healthCheck (Some e) now name s)) = transports s"
  "tools (snd (healthCheck (Some e) now name s)) = tools s"
  "constructed (snd (healthCheck (Some e) now name s)) = constructed s"
  "live (snd (healthCheck (Some e) now name s)) = live s"
  "slept (snd (healthCheck (Some e) now name s)) = slept s"
  by (simp_all add: healthCheck_def Let_def split: option.splits Client.splits)

lemma failing_healthCheck_status:
  "connectionStatus (snd (healthCheck (Some e) now name s)) =
     (if clients s name = None then connectionStatus s
      else (connectionStatus s)(name \<mapsto>
             \<lparr>connected = False, serverName = name, lastChecked = now,
              error = Some (errorMessage e)\<rparr>))"
  by (simp add: healthCheck_def Let_def split: option.splits Client.splits)

lemma failing_healthChecks_retry:
  "retryAttempts (failing_healthChecks checks name s) = retryAttempts s"
  by (induction checks arbitrary: s) (simp_all add: failing_healthCheck_fields)

text \<open>
  Claim C6: a failing \<open>healthCheck\<close> returns \<open>false\<close> and leaves the retry counts, the
  clients, the transports and the tool lists as they were; of the statuses it changes
  only the one of its own name, which (when the name has a client) becomes
  \<open>connected: false\<close> with the date of the check and the error's message. After a
  successful \<open>connect\<close> the retry count of the name is 0, and it still is after any
  number of failing health checks, which leave the name Failed. In a reachable state a
  \<open>healthCheck\<close> on a name with no transport returns \<open>false\<close> and changes nothing.
\<close>
theorem healthCheck_failure_frame:
  "fst (healthCheck (Some e) now name s) = False \<and>
   retryAttempts (snd (healthCheck (Some e) now name s)) = retryAttempts s \<and>
   clients (snd (healthCheck (Some e) now name s)) = clients s \<and>
   transports (snd (healthCheck (Some e) now name s)) = transports s \<and>
   tools (snd (healthCheck (Some e) now name s)) = tools s \<and>
   (\<forall>m. m \<noteq> name \<longrightarrow>
      connectionStatus (snd (healthCheck (Some e) now name s)) m = connectionStatus s m) \<and>
   (clients s name \<noteq> None \<longrightarrow>
      connectionStatus (snd (healthCheck (Some e) now name s)) name =
        Some \<lparr>connected = False, serverName = name, lastChecked = now,
              error = Some (errorMessage e)\<rparr>) \<and>
   (fst (connect io cfg s) = Inr () \<longrightarrow>
      retryAttempts (snd (connect io cfg s)) (cfg_name cfg) = Some 0 \<and>
      retryAttempts (failing_healthChecks checks (cfg_name cfg) (snd (connect io cfg s)))
        (cfg_name cfg) = Some 0 \<and>
      (checks \<noteq> [] \<longrightarrow>
         connection_state (failing_healthChecks checks (cfg_name cfg) (snd (connect io cfg s)))
           (cfg_name cfg) = Failed)) \<and>
   (reachable s \<and> transports s name = None \<longrightarrow>
      healthCheck listed now name s = (False, s))"
proof -
  have frame: "fst (healthCheck (Some e) now name s) = False \<and>
   retryAttempts (snd (healthCheck (Some e) now name s)) = retryAttempts s \<and>
   clients (snd (healthCheck (Some e) now name s)) = clients s \<and>
   transports (snd (healthCheck (Some e) now name s)) = transports s \<and>
   tools (snd (healthCheck (Some e) now name s)) = tools s"
    by (simp add: failing_healthCheck_fields)
  have others: "\<forall>m. m \<noteq> name \<longrightarrow>
      connectionStatus (snd (healthCheck (Some e) now name s)) m = connectionStatus s m"
    by (simp add: failing_healthCheck_status)
  have here: "clients s name \<noteq> None \<longrightarrow>
      connectionStatus (snd (healthCheck (Some e) now name s)) name =
        Some \<lparr>connected = False, serverName = name, lastChecked = now,
              error = Some (errorMessage e)\<rparr>"
    by (simp add: failing_healthCheck_status)
  have fresh: "fst (connect io cfg s) = Inr () \<longrightarrow>
      retryAttempts (snd (connect io cfg s)) (cfg_name cfg) = Some 0 \<and>
      retryAttempts (failing_healthChecks checks (cfg_name cfg) (snd (connect io cfg s)))
        (cfg_name cfg) = Some 0 \<and>
      (checks \<noteq> [] \<longrightarrow>
         connection_state (failing_healthChecks checks (cfg_name cfg) (snd (connect io cfg s)))
           (cfg_name cfg) = Failed)"
  proof
    assume ok: "fst (connect io cfg s) = Inr ()"
    have r: "retryAttempts (snd (connect io cfg s)) (cfg_name cfg) = Some 0"
      and c: "clients (snd (connect io cfg s)) (cfg_name cfg) \<noteq> None"
      using connect_ok_means_connected [OF ok] by simp_all
    have f: "clients t (cfg_name cfg) \<noteq> None \<Longrightarrow> checks \<noteq> [] \<Longrightarrow>
        connection_state (failing_healthChecks checks (cfg_name cfg) t) (cfg_name cfg) = Failed"
      for t
    proof (induction checks arbitrary: t rule: rev_induct)
      case Nil
      then show ?case by simp
    next
      case (snoc c cs)
      have step: "failing_healthChecks (cs @ [c]) (cfg_name cfg) t =
                  snd (healthCheck (Some (fst c)) (snd c) (cfg_name cfg)
                         (failing_healthChecks cs (cfg_name cfg) t))" for t
        by (induction cs arbitrary: t) simp_all
      have keep: "clients (failing_healthChecks cs (cfg_name cfg) t) = clients t" for t
        by (induction cs arbitrary: t) (simp_all add: failing_healthCheck_fields)
      show ?case
        using snoc.prems(1)
        by (auto simp add: step connection_state_def failing_healthCheck_status keep)
    qed
    show "retryAttempts (snd (connect io cfg s)) (cfg_name cfg) = Some 0 \<and>
      retryAttempts (failing_healthChecks checks (cfg_name cfg) (snd (connect io cfg s)))
        (cfg_name cfg) = Some 0 \<and>
      (checks \<noteq> [] \<longrightarrow>
         connection_state (failing_healthChecks checks (cfg_name cfg) (snd (connect io cfg s)))
           (cfg_name cfg) = Failed)"
      using r f [OF c] by (simp add: failing_healthChecks_retry)
  qed
  have absent: "reachable s \<and> transports s name = None \<longrightarrow>
      healthCheck listed now name s = (False, s)"
    by (auto simp: healthCheck_def dest: reachable_no_transport)
  from frame others here fresh absent show ?thesis by blast
qed

text \<open>C6 on the connected \<open>drawio\<close>: three failing health checks, and a check of a name
  that was never connected.\<close>
theorem healthCheck_failure_frame_witness:
  "retryAttempts connected_drawio ''drawio'' = Some 0 \<and>
   retryAttempts
     (failing_healthChecks [(JsError ''Connection closed'', 2000), (NonError, 3000),
        (JsError ''Request timed out'', 4000)] ''drawio'' connected_drawio) ''drawio'' = Some 0 \<and>
   connection_state
     (failing_healthChecks [(JsError ''Connection closed'', 2000), (NonError, 3000),
        (JsError ''Request timed out'', 4000)] ''drawio'' connected_drawio) ''drawio'' = Failed \<and>
   connectionStatus (snd (healthCheck (Some NonError) 3000 ''drawio'' connected_drawio)) ''drawio'' =
     Some \<lparr>connected = False, serverName = ''drawio'', lastChecked = 3000,
           error = Some ''Unknown error''\<rparr> \<and>
   healthCheck None 3000 ''aws'' connected_drawio = (False, connected_drawio)"
proof -
  have ok: "fst (connect server_up drawio_config new_MCPClient) = Inr ()"
    by (simp add: connect_def connectWithRetry_done [of server_up 0 "[]"] server_up_def)
  have n: "cfg_name drawio_config = ''drawio''" by (simp add: drawio_config_def)
  have c: "clients connected_drawio ''drawio'' \<noteq> None" by (simp add: connected_drawio_fields)
  have "transports connected_drawio ''aws'' = None"
    by (simp add: connected_drawio_def connect_def connectWithRetry_done [of server_up 0 "[]"]
          server_up_def connect_try_def drawio_config_def new_MCPClient_def)
  then have a: "reachable connected_drawio \<and> transports connected_drawio ''aws'' = None"
    by (simp add: reachable_connected_drawio)
  from ok c a
    healthCheck_failure_frame [of NonError 3000 "''drawio''" connected_drawio server_up
      drawio_config "[(JsError ''Connection closed'', 2000), (NonError, 3000),
        (JsError ''Request timed out'', 4000)]" None]
    healthCheck_failure_frame [of NonError 3000 "''aws''" connected_drawio server_up
      drawio_config "[]" None]
    healthCheck_failure_frame [of NonError 3000 "''drawio''" new_MCPClient server_up
      drawio_config "[(JsError ''Connection closed'', 2000), (NonError, 3000),
        (JsError ''Request timed out'', 4000)]" None]
  show ?thesis
    unfolding n by (simp add: connected_drawio_def [symmetric] errorMessage_def)
qed

text \<open>
  Claim C4 says that \<open>applyLayout\<close> and \<open>exportDiagram\<close>, being unimplemented, both fail
  with a not-implemented error on every call. \<open>exportDiagram\<close> does throw;
  \<open>applyLayout\<close>, whose console line says \<open>not yet implemented\<close>, returns normally on
  every call and changes nothing.
\<close>
theorem applyLayout_returns_normally:
  "applyLayout algorithm s = (Inr (), s) \<and>
   exportDiagram format s = (Inl (JsError ''Export not yet implemented''), s)"
  by (simp add: applyLayout_def exportDiagram_def)

lemma getShapeStyle_known:
  "getShapeStyle ''rectangle'' = JsString ''whiteSpace=wrap;html=1;fillColor=#dae8fc;strokeColor=#6c8ebf;''"
  "getShapeStyle ''default'' = JsString ''whiteSpace=wrap;html=1;fillColor=#dae8fc;strokeColor=#6c8ebf;''"
  by (simp_all add: getShapeStyle_def js_or_def property_get_def styles_def)

text \<open>
  The fallback the code aims at holds for every type that is neither one of the five
  names nor a member of \<open>Object.prototype\<close>.
\<close>

lemma getShapeStyle_fallback:
  assumes "shapeType \<notin> {''rectangle'', ''ellipse'', ''cloud'', ''cylinder'', ''actor''}"
    and "shapeType \<notin> set Object_prototype"
  shows "getShapeStyle shapeType = getShapeStyle ''rectangle''"
  using assms
  by (simp add: getShapeStyle_def js_or_def property_get_def styles_def)

text \<open>
  Claim C10 says that every shape type other than rectangle, ellipse, cloud, cylinder
  and actor gets the default style. \<open>styles[type]\<close> also finds what the object literal
  inherits from \<open>Object.prototype\<close>: for the type \<open>constructor\<close> it is a function, which
  is truthy, so \<open>|| styles.default\<close> is not taken and the function is what \<open>createShape\<close>
  passes as \<open>style\<close>.
\<close>
theorem getShapeStyle_inherited_member:
  "''constructor'' \<notin> {''rectangle'', ''ellipse'', ''cloud'', ''cylinder'', ''actor''} \<and>
   getShapeStyle ''constructor'' = JsInherited ''constructor'' \<and>
   getShapeStyle ''constructor'' \<noteq> getShapeStyle ''rectangle'' \<and>
   wire (snd (createShape reply ''constructor'' label position width height connected_drawio)) =
     wire connected_drawio @
       [CallToolRequest 0 ''mcp_drawio_add_rectangle''
          [(''text'', JsString label),
           (''x'', JsNumber (pos_x position)),
           (''y'', JsNumber (pos_y position)),
           (''width'', JsNumber (case width of None \<Rightarrow> 120 | Some w \<Rightarrow> w)),
           (''height'', JsNumber (case height of None \<Rightarrow> 60 | Some h \<Rightarrow> h)),
           (''style'', JsInherited ''constructor'')]]"
proof -
  have g: "getShapeStyle ''constructor'' = JsInherited ''constructor''"
    by (simp add: getShapeStyle_def js_or_def property_get_def styles_def Object_prototype_def)
  show ?thesis
    by (simp add: g getShapeStyle_known createShape_snd callTool_def connected_drawio_fields
          Let_def split: tool_reply.splits)
qed

section \<open>The session store: proofs\<close>

subsection \<open>A database that answers\<close>

lemma sqlite_reports_answering:
  "answering d \<Longrightarrow> sqlite_reports d = (None, d)"
  by (simp add: answering_def sqlite_reports_def)

lemma database_run_answering:
  "answering d \<Longrightarrow>
   database_run statement d =
     (case statement (sessions d) of
        Inl e \<Rightarrow> (Inl e, d)
      | Inr rows \<Rightarrow> (Inr (), d\<lparr>sessions := rows\<rparr>))"
  by (simp add: database_run_def sqlite_reports_answering) (simp add: answering_def)

lemma database_get_answering:
  "answering d \<Longrightarrow> database_get query d = (Inr (query (sessions d)), d)"
  by (simp add: database_get_def sqlite_reports_answering) (simp add: answering_def)

lemma database_all_answering:
  "answering d \<Longrightarrow> database_all query d = (Inr (query (sessions d)), d)"
  by (simp add: database_all_def sqlite_reports_answering) (simp add: answering_def)

lemma answering_sessions [simp]:
  "answering (d\<lparr>sessions := rows\<rparr>) = answering d"
  by (simp add: answering_def)

lemma getSession_answering:
  "answering d \<Longrightarrow>
   getSession i d = (Inr (map_option rowToSession (sql_select_by_id i (sessions d))), d)"
  by (simp add: getSession_def database_get_answering split: option.splits)

lemma deleteSession_answering:
  "answering d \<Longrightarrow>
   deleteSession i d = (Inr (), d\<lparr>sessions := filter (\<lambda>r. row_id r \<noteq> i) (sessions d)\<rparr>)"
  by (simp add: deleteSession_def database_run_answering sql_delete_def)

lemma select_by_id_None:
  "sql_select_by_id i rows = None \<longleftrightarrow> i \<notin> set (map row_id rows)"
  by (auto simp: sql_select_by_id_def find_None_iff)

lemma select_by_id_deleted:
  "sql_select_by_id i (filter (\<lambda>r. row_id r \<noteq> i) rows) = None"
  by (auto simp: select_by_id_None)

lemma select_by_id_appended:
  "i \<notin> set (map row_id rows) \<Longrightarrow> row_id r = i \<Longrightarrow> sql_select_by_id i (rows @ [r]) = Some r"
  by (induction rows) (auto simp: sql_select_by_id_def)

subsection \<open>What a call that does not answer leaves behind\<close>

lemma database_get_sessions:
  "sessions (snd (database_get query d)) = sessions d"
  by (simp add: database_get_def sqlite_reports_def split: list.splits option.splits)

lemma getSession_sessions:
  "sessions (snd (getSession i d)) = sessions d"
  using database_get_sessions [of "sql_select_by_id i" d]
  by (cases "database_get (sql_select_by_id i) d")
     (auto simp: getSession_def split: sum.splits option.splits)

text \<open>
  Claim C9: on a database that answers, \<open>deleteSession(id)\<close> succeeds for every id and
  removes the row of that id and no other. On an id that is not in the store, or that
  was just deleted, it succeeds and leaves the store as it is. After it, \<open>getSession\<close>
  of the same id returns \<open>null\<close>, the not-found signal.
\<close>
theorem deleteSession_idempotent:
  assumes "answering d"
  shows "fst (deleteSession i d) = Inr () \<and>
         sessions (snd (deleteSession i d)) = filter (\<lambda>r. row_id r \<noteq> i) (sessions d) \<and>
         (i \<notin> set (map row_id (sessions d)) \<longrightarrow> deleteSession i d = (Inr (), d)) \<and>
         deleteSession i (snd (deleteSession i d)) = (Inr (), snd (deleteSession i d)) \<and>
         getSession i (snd (deleteSession i d)) = (Inr None, snd (deleteSession i d))"
proof -
  have unknown: "i \<notin> set (map row_id (sessions d)) \<longrightarrow> deleteSession i d = (Inr (), d)"
  proof
    assume "i \<notin> set (map row_id (sessions d))"
    then have "filter (\<lambda>r. row_id r \<noteq> i) (sessions d) = sessions d"
      by (induction "sessions d") (auto simp: filter_id_conv)
    then show "deleteSession i d = (Inr (), d)"
      using assms by (simp add: deleteSession_answering)
  qed
  show ?thesis
    using assms unknown
    by (simp add: deleteSession_answering getSession_answering select_by_id_deleted)
qed

text \<open>C9 on the store of three sessions: deleting \<open>a\<close>, and deleting an id it never held.\<close>
theorem deleteSession_idempotent_witness:
  "fst (deleteSession ''a'' three_sessions) = Inr () \<and>
   map row_id (sessions (snd (deleteSession ''a'' three_sessions))) = [''b'', ''c''] \<and>
   deleteSession ''zz'' three_sessions = (Inr (), three_sessions) \<and>
   getSession ''a'' (snd (deleteSession ''a'' three_sessions)) =
     (Inr None, snd (deleteSession ''a'' three_sessions))"
proof -
  have a: "answering three_sessions" by (simp add: answering_def three_sessions_def)
  have u: "''zz'' \<notin> set (map row_id (sessions three_sessions))"
    by (simp add: three_sessions_def row_at_def)
  have s: "map row_id (filter (\<lambda>r. row_id r \<noteq> ''a'') (sessions three_sessions)) = [''b'', ''c'']"
    by (simp add: three_sessions_def row_at_def)
  from u s deleteSession_idempotent [OF a, of "''a''"] deleteSession_idempotent [OF a, of "''zz''"]
  show ?thesis by simp
qed

subsection \<open>createSession\<close>

lemma createSession_returns:
  assumes "fst (createSession uuid t1 t2 d) = Inr session"
  shows "session = \<lparr>session_id = uuid, createdAt = t1, lastAccessedAt = t2,
                    chatHistory = [], currentDiagram = None, config = default_config\<rparr> \<and>
         uuid \<notin> set (map row_id (sessions d)) \<and>
         uuid \<in> set (map row_id (sessions (snd (createSession uuid t1 t2 d))))"
  using assms
  by (auto simp: createSession_def database_run_def sqlite_reports_def sql_insert_def Let_def
           split: if_splits list.splits option.splits)

lemma createSession_duplicate:
  assumes "uuid \<in> set (map row_id (sessions d))"
  shows "(\<exists>e. fst (createSession uuid t1 t2 d) = Inl e) \<and>
         sessions (snd (createSession uuid t1 t2 d)) = sessions d"
  using assms
  by (auto simp: createSession_def database_run_def sqlite_reports_def sql_insert_def Let_def
           split: if_splits list.splits option.splits)

text \<open>
  Claim C8 as the specification words it has \<open>createdAt\<close> equal to \<open>lastAccessedAt\<close>.
  The object literal of \<open>createSession\<close> evaluates \<open>new Date()\<close> once for each of the two
  fields; when the clock moves from 1000 to 1001 between the two, the session returned
  has two different dates.
\<close>
theorem createSession_two_dates_counterexample:
  "fst (createSession ''5b1e'' 1000 1001 empty_store) =
     Inr \<lparr>session_id = ''5b1e'', createdAt = 1000, lastAccessedAt = 1001,
          chatHistory = [], currentDiagram = None, config = default_config\<rparr> \<and>
   (1000 :: date) \<noteq> 1001"
  by (simp add: createSession_def database_run_def sqlite_reports_def sql_insert_def
        empty_store_def)

text \<open>
  Claim C8, amended: on a database that answers, \<open>createSession()\<close> with an id not yet in
  the store returns a session with that id, \<open>createdAt\<close> and \<open>lastAccessedAt\<close> each read
  from the clock while the session is built (\<open>createdAt\<close> first; the two are equal when
  both readings are), an empty chat history, no diagram and the default config, and a
  \<open>getSession\<close> of the id right after returns the very same record. Whenever a session
  is returned, its id was not in the store before and is in it afterwards; an id that
  is already taken makes \<open>createSession\<close> fail and leaves the rows as they are.
\<close>
theorem createSession_then_getSession:
  "(answering d \<and> uuid \<notin> set (map row_id (sessions d)) \<longrightarrow>
      fst (createSession uuid t1 t2 d) =
        Inr \<lparr>session_id = uuid, createdAt = t1, lastAccessedAt = t2,
             chatHistory = [], currentDiagram = None, config = default_config\<rparr> \<and>
      getSession uuid (snd (createSession uuid t1 t2 d)) =
        (Inr (Some \<lparr>session_id = uuid, createdAt = t1, lastAccessedAt = t2,
                    chatHistory = [], currentDiagram = None, config = default_config\<rparr>),
         snd (createSession uuid t1 t2 d))) \<and>
   (\<forall>session. fst (createSession uuid t1 t2 d) = Inr session \<longrightarrow>
      session = \<lparr>session_id = uuid, createdAt = t1, lastAccessedAt = t2,
                 chatHistory = [], currentDiagram = None, config = default_config\<rparr> \<and>
      uuid \<notin> set (map row_id (sessions d)) \<and>
      uuid \<in> set (map row_id (sessions (snd (createSession uuid t1 t2 d))))) \<and>
   (uuid \<in> set (map row_id (sessions d)) \<longrightarrow>
      (\<exists>e. fst (createSession uuid t1 t2 d) = Inl e) \<and>
      sessions (snd (createSession uuid t1 t2 d)) = sessions d)"
proof (intro conjI impI allI)
  assume a: "answering d \<and> uuid \<notin> set (map row_id (sessions d))"
  then have c: "createSession uuid t1 t2 d =
      (Inr \<lparr>session_id = uuid, createdAt = t1, lastAccessedAt = t2,
             chatHistory = [], currentDiagram = None, config = default_config\<rparr>,
       d\<lparr>sessions := sessions d @
           [\<lparr>row_id = uuid, created_at = Iso t1, last_accessed_at = Iso t2,
             chat_history = Json [], current_diagram = None,
             row_config = Json default_config\<rparr>]\<rparr>)"
    by (simp add: createSession_def database_run_answering sql_insert_def)
  show "fst (createSession uuid t1 t2 d) =
        Inr \<lparr>session_id = uuid, createdAt = t1, lastAccessedAt = t2,
             chatHistory = [], currentDiagram = None, config = default_config\<rparr>"
    by (simp add: c)
  show "getSession uuid (snd (createSession uuid t1 t2 d)) =
        (Inr (Some \<lparr>session_id = uuid, createdAt = t1, lastAccessedAt = t2,
                    chatHistory = [], currentDiagram = None, config = default_config\<rparr>),
         snd (createSession uuid t1 t2 d))"
    using a by (simp add: c getSession_answering select_by_id_appended rowToSession_def)
next
  fix session
  assume "fst (createSession uuid t1 t2 d) = Inr session"
  from createSession_returns [OF this]
  show "session = \<lparr>session_id = uuid, createdAt = t1, lastAccessedAt = t2,
                 chatHistory = [], currentDiagram = None, config = default_config\<rparr>"
    and "uuid \<notin> set (map row_id (sessions d))"
    and "uuid \<in> set (map row_id (sessions (snd (createSession uuid t1 t2 d))))"
    by simp_all
next
  assume "uuid \<in> set (map row_id (sessions d))"
  from createSession_duplicate [OF this]
  show "\<exists>e. fst (createSession uuid t1 t2 d) = Inl e"
    and "sessions (snd (createSession uuid t1 t2 d)) = sessions d"
    by simp_all
qed

text \<open>The amended C8 on the store of three sessions, with a new id and with the id \<open>a\<close>.\<close>
theorem createSession_then_getSession_witness:
  "fst (createSession ''5b1e'' 1000 1000 three_sessions) =
     Inr \<lparr>session_id = ''5b1e'', createdAt = 1000, lastAccessedAt = 1000,
          chatHistory = [], currentDiagram = None, config = default_config\<rparr> \<and>
   getSession ''5b1e'' (snd (createSession ''5b1e'' 1000 1000 three_sessions)) =
     (Inr (Some \<lparr>session_id = ''5b1e'', createdAt = 1000, lastAccessedAt = 1000,
                 chatHistory = [], currentDiagram = None, config = default_config\<rparr>),
      snd (createSession ''5b1e'' 1000 1000 three_sessions)) \<and>
   ''5b1e'' \<in> set (map row_id (sessions (snd (createSession ''5b1e'' 1000 1000 three_sessions)))) \<and>
   fst (createSession ''a'' 1000 1000 three_sessions) = Inl constraint_failed"
proof -
  have a: "answering three_sessions \<and> ''5b1e'' \<notin> set (map row_id (sessions three_sessions))"
    by (simp add: answering_def three_sessions_def row_at_def)
  have b: "''a'' \<in> set (map row_id (sessions three_sessions))"
    by (simp add: three_sessions_def row_at_def)
  have c: "fst (createSession ''a'' 1000 1000 three_sessions) = Inl constraint_failed"
    by (simp add: createSession_def database_run_def sqlite_reports_def sql_insert_def
          three_sessions_def row_at_def)
  from createSession_then_getSession [of three_sessions "''5b1e''" 1000 1000] a
  have g: "fst (createSession ''5b1e'' 1000 1000 three_sessions) =
     Inr \<lparr>session_id = ''5b1e'', createdAt = 1000, lastAccessedAt = 1000,
          chatHistory = [], currentDiagram = None, config = default_config\<rparr> \<and>
   getSession ''5b1e'' (snd (createSession ''5b1e'' 1000 1000 three_sessions)) =
     (Inr (Some \<lparr>session_id = ''5b1e'', createdAt = 1000, lastAccessedAt = 1000,
                 chatHistory = [], currentDiagram = None, config = default_config\<rparr>),
      snd (createSession ''5b1e'' 1000 1000 three_sessions))"
    by blast
  then have "fst (createSession ''5b1e'' 1000 1000 three_sessions) =
     Inr \<lparr>session_id = ''5b1e'', createdAt = 1000, lastAccessedAt = 1000,
          chatHistory = [], currentDiagram = None, config = default_config\<rparr>"
    by blast
  with createSession_then_getSession [of three_sessions "''5b1e''" 1000 1000]
  have p: "''5b1e'' \<in> set (map row_id (sessions (snd (createSession ''5b1e'' 1000 1000 three_sessions))))"
    by blast
  from g p c show ?thesis by blast
qed

subsection \<open>updateSession\<close>

lemma select_by_id_updated:
  "sql_select_by_id i (map (\<lambda>r. if row_id r = i then f r else r) rows) =
     map_option f (sql_select_by_id i rows)"
  if "\<And>r. row_id (f r) = row_id r"
  using that by (induction rows) (auto simp: sql_select_by_id_def)

lemma select_by_id_other:
  "j \<noteq> i \<Longrightarrow> (\<And>r. row_id (f r) = row_id r) \<Longrightarrow>
   sql_select_by_id j (map (\<lambda>r. if row_id r = i then f r else r) rows) =
     sql_select_by_id j rows"
  by (induction rows) (auto simp: sql_select_by_id_def)

lemma updateSession_absent:
  assumes "i \<notin> set (map row_id (sessions d))"
  shows "(\<exists>e. fst (updateSession now i data d) = Inl e) \<and>
         sessions (snd (updateSession now i data d)) = sessions d"
proof -
  have n: "sql_select_by_id i (sessions d) = None"
    using assms by (simp add: select_by_id_None)
  show ?thesis
    by (auto simp: updateSession_def getSession_def database_get_def sqlite_reports_def n
             split: list.splits option.splits)
qed

lemma Json_JSON_parse: "Json (JSON_parse j) = j"
  by (cases j) simp

text \<open>The row \<open>updateSession\<close> writes over the row \<open>r\<close>.\<close>

lemma updateSession_answering:
  assumes "answering d" and "sql_select_by_id i (sessions d) = Some r"
  shows "updateSession now i data d =
     (Inr (),
      d\<lparr>sessions :=
          map (\<lambda>x. if row_id x = i
                    then x\<lparr>last_accessed_at := Iso now,
                           chat_history :=
                             Json (case given_chatHistory data of
                                     None \<Rightarrow> JSON_parse (chat_history r) | Some v \<Rightarrow> v),
                           current_diagram :=
                             (case given_currentDiagram data of
                                None \<Rightarrow> current_diagram r
                              | Some v \<Rightarrow> map_option Json v),
                           row_config :=
                             Json (case given_config data of
                                     None \<Rightarrow> JSON_parse (row_config r) | Some v \<Rightarrow> v)\<rparr>
                    else x) (sessions d)\<rparr>)"
  using assms
  by (simp add: updateSession_def getSession_answering database_run_answering sql_update_def
        spread_def rowToSession_def Json_JSON_parse split: option.splits)

text \<open>
  Claim C7: for an id with no row, \<open>updateSession\<close> fails and leaves every row as it
  is, and on a database that answers the error is the not-found error and nothing at
  all changes. For an id that \<open>getSession\<close> finds, on a database that answers,
  \<open>updateSession\<close> succeeds, and the record read back afterwards has the supplied chat
  history, diagram and config in place of the old ones (the old ones where none was
  supplied), \<open>lastAccessedAt\<close> equal to \<open>now\<close>, and the id and \<open>createdAt\<close> it had before,
  whatever the partial record supplies for them. No row changes its id or its
  \<open>created_at\<close>, and every other session reads back as before.
\<close>
theorem updateSession_merges:
  "(i \<notin> set (map row_id (sessions d)) \<longrightarrow>
      (\<exists>e. fst (updateSession now i data d) = Inl e) \<and>
      sessions (snd (updateSession now i data d)) = sessions d) \<and>
   (answering d \<and> i \<notin> set (map row_id (sessions d)) \<longrightarrow>
      updateSession now i data d = (Inl (session_not_found i), d)) \<and>
   (answering d \<and> fst (getSession i d) = Inr (Some old) \<longrightarrow>
      fst (updateSession now i data d) = Inr () \<and>
      fst (getSession i (snd (updateSession now i data d))) =
        Inr (Some \<lparr>session_id = session_id old,
                   createdAt = createdAt old,
                   lastAccessedAt = now,
                   chatHistory =
                     (case given_chatHistory data of None \<Rightarrow> chatHistory old | Some v \<Rightarrow> v),
                   currentDiagram =
                     (case given_currentDiagram data of None \<Rightarrow> currentDiagram old | Some v \<Rightarrow> v),
                   config = (case given_config data of None \<Rightarrow> config old | Some v \<Rightarrow> v)\<rparr>) \<and>
      map row_id (sessions (snd (updateSession now i data d))) = map row_id (sessions d) \<and>
      map created_at (sessions (snd (updateSession now i data d))) = map created_at (sessions d) \<and>
      (\<forall>j. j \<noteq> i \<longrightarrow>
         fst (getSession j (snd (updateSession now i data d))) = fst (getSession j d)))"
proof (intro conjI impI allI)
  assume "i \<notin> set (map row_id (sessions d))"
  from updateSession_absent [OF this]
  show "\<exists>e. fst (updateSession now i data d) = Inl e"
    and "sessions (snd (updateSession now i data d)) = sessions d"
    by simp_all
next
  assume n: "answering d \<and> i \<notin> set (map row_id (sessions d))"
  then have "sql_select_by_id i (sessions d) = None" by (simp add: select_by_id_None)
  with n show "updateSession now i data d = (Inl (session_not_found i), d)"
    by (simp add: updateSession_def getSession_answering)
next
  assume a: "answering d \<and> fst (getSession i d) = Inr (Some old)"
  then obtain r where r: "sql_select_by_id i (sessions d) = Some r" and old: "old = rowToSession r"
    by (auto simp: getSession_answering)
  have ans: "answering d" using a by simp
  note u = updateSession_answering [OF ans r, of now data]
  have keep: "row_id (x\<lparr>last_accessed_at := la, chat_history := ch, current_diagram := cd,
                         row_config := rc\<rparr>) = row_id x" for x :: SessionRow and la ch cd rc
    by simp
  show "fst (updateSession now i data d) = Inr ()" by (simp add: u)
  show "map row_id (sessions (snd (updateSession now i data d))) = map row_id (sessions d)"
    by (simp add: u comp_def cong: map_cong)
  show "map created_at (sessions (snd (updateSession now i data d))) = map created_at (sessions d)"
    by (simp add: u comp_def cong: map_cong)
  show "fst (getSession i (snd (updateSession now i data d))) =
        Inr (Some \<lparr>session_id = session_id old,
                   createdAt = createdAt old,
                   lastAccessedAt = now,
                   chatHistory =
                     (case given_chatHistory data of None \<Rightarrow> chatHistory old | Some v \<Rightarrow> v),
                   currentDiagram =
                     (case given_currentDiagram data of None \<Rightarrow> currentDiagram old | Some v \<Rightarrow> v),
                   config = (case given_config data of None \<Rightarrow> config old | Some v \<Rightarrow> v)\<rparr>)"
    using ans
    by (simp add: u getSession_answering select_by_id_updated r old rowToSession_def
          split: option.splits)
  fix j assume "j \<noteq> i"
  then show "fst (getSession j (snd (updateSession now i data d))) = fst (getSession j d)"
    using ans by (simp add: u getSession_answering select_by_id_other)
qed

text \<open>
  C7 on the store of three sessions: an update of an id it does not hold, and an update
  of \<open>c\<close> that supplies a chat history, another id and other dates.
\<close>
theorem updateSession_merges_witness:
  "updateSession (hours 25) ''zz'' some_fields three_sessions =
     (Inl (JsError ''Session zz not found''), three_sessions) \<and>
   fst (updateSession (hours 25) ''c'' some_fields three_sessions) = Inr () \<and>
   fst (getSession ''c'' (snd (updateSession (hours 25) ''c'' some_fields three_sessions))) =
     Inr (Some \<lparr>session_id = ''c'', createdAt = hours 24, lastAccessedAt = hours 25,
                chatHistory = [hello], currentDiagram = None, config = default_config\<rparr>) \<and>
   map row_id (sessions (snd (updateSession (hours 25) ''c'' some_fields three_sessions))) =
     [''a'', ''b'', ''c'']"
proof -
  have a: "answering three_sessions \<and> ''zz'' \<notin> set (map row_id (sessions three_sessions))"
    by (simp add: answering_def three_sessions_def row_at_def)
  have "answering three_sessions" using a by simp
  then have g: "answering three_sessions \<and>
      fst (getSession ''c'' three_sessions) =
        Inr (Some \<lparr>session_id = ''c'', createdAt = hours 24, lastAccessedAt = hours 24,
                   chatHistory = [], currentDiagram = None, config = default_config\<rparr>)"
    by (simp add: getSession_answering)
       (simp add: three_sessions_def row_at_def sql_select_by_id_def rowToSession_def)
  have ids: "map row_id (sessions three_sessions) = [''a'', ''b'', ''c'']"
    by (simp add: three_sessions_def row_at_def)
  have f: "given_chatHistory some_fields = Some [hello]" "given_currentDiagram some_fields = None"
    "given_config some_fields = None"
    by (simp_all add: some_fields_def)
  from updateSession_merges [of "''zz''" three_sessions "hours 25" some_fields] a
  have 1: "updateSession (hours 25) ''zz'' some_fields three_sessions =
     (Inl (JsError ''Session zz not found''), three_sessions)"
    by (simp add: session_not_found_def)
  from updateSession_merges [of "''c''" three_sessions "hours 25" some_fields] g
  have 2: "fst (updateSession (hours 25) ''c'' some_fields three_sessions) = Inr () \<and>
   fst (getSession ''c'' (snd (updateSession (hours 25) ''c'' some_fields three_sessions))) =
     Inr (Some \<lparr>session_id = ''c'', createdAt = hours 24, lastAccessedAt = hours 25,
                chatHistory = [hello], currentDiagram = None, config = default_config\<rparr>) \<and>
   map row_id (sessions (snd (updateSession (hours 25) ''c'' some_fields three_sessions))) =
     [''a'', ''b'', ''c'']"
    by (simp add: f ids)
  from 1 2 show ?thesis by blast
qed

subsection \<open>cleanupExpiredSessions\<close>

lemma setHours_minus_24_steady:
  "steady zone now \<Longrightarrow> setHours_minus_24 zone now = now - hours 24"
  by (simp add: setHours_minus_24_def steady_def Let_def)

lemma select_expired:
  "sql_select_expired (Iso (now - hours 24)) rows = map row_id (candidates now rows)"
proof -
  have "text_less (last_accessed_at r) (Iso (now - hours 24)) = expired now r" for r
    by (cases "last_accessed_at r") (simp add: expired_def)
  then show ?thesis by (simp add: sql_select_expired_def candidates_def)
qed

lemma set_candidates: "set (candidates now rows) = {r \<in> set rows. expired now r}"
  by (simp add: candidates_def)

lemma length_candidates: "length (candidates now rows) = length (filter (expired now) rows)"
  by (simp add: candidates_def)

lemma distinct_candidates:
  assumes "distinct (map row_id rows)"
  shows "distinct (map row_id (candidates now rows))"
proof -
  have d: "distinct rows" and inj: "inj_on row_id (set rows)"
    using assms by (simp_all add: distinct_map)
  have "inj_on row_id (set (candidates now rows))"
    using inj by (rule inj_on_subset) (auto simp: set_candidates)
  moreover have "distinct (candidates now rows)"
    using d by (simp add: candidates_def)
  ultimately show ?thesis by (simp add: distinct_map)
qed

lemma delete_each_answering:
  "answering d \<Longrightarrow>
   delete_each ids d = (Inr (), d\<lparr>sessions := filter (\<lambda>r. row_id r \<notin> set ids) (sessions d)\<rparr>)"
proof (induction ids arbitrary: d)
  case Nil
  then show ?case by simp
next
  case (Cons i ids)
  have "filter (\<lambda>r. row_id r \<notin> set ids) (filter (\<lambda>r. row_id r \<noteq> i) (sessions d)) =
        filter (\<lambda>r. row_id r \<notin> set (i # ids)) (sessions d)"
    by (induction "sessions d") (auto intro: filter_cong)
  with Cons show ?case
    by (simp add: deleteSession_answering)
qed

lemma deleteSession_fails:
  "handle_set d \<Longrightarrow> pending d = Some e # rest \<Longrightarrow>
   deleteSession i d = (Inl e, d\<lparr>pending := rest\<rparr>)"
  by (simp add: deleteSession_def database_run_def sqlite_reports_def)

lemma deleteSession_next:
  "handle_set d \<Longrightarrow> pending d = None # rest \<Longrightarrow>
   deleteSession i d =
     (Inr (), d\<lparr>pending := rest, sessions := filter (\<lambda>r. row_id r \<noteq> i) (sessions d)\<rparr>)"
  by (simp add: deleteSession_def database_run_def sqlite_reports_def sql_delete_def)

lemma delete_each_aborts:
  "handle_set d \<Longrightarrow> pending d = replicate j None @ Some e # rest \<Longrightarrow> j < length ids \<Longrightarrow>
   delete_each ids d =
     (Inl e, d\<lparr>pending := rest,
               sessions := filter (\<lambda>r. row_id r \<notin> set (take j ids)) (sessions d)\<rparr>)"
proof (induction ids arbitrary: d j)
  case Nil
  then show ?case by simp
next
  case (Cons i ids)
  show ?case
  proof (cases j)
    case 0
    with Cons.prems show ?thesis
      by (simp add: deleteSession_fails [of d e rest])
  next
    case (Suc j')
    let ?d = "d\<lparr>pending := replicate j' None @ Some e # rest,
                sessions := filter (\<lambda>r. row_id r \<noteq> i) (sessions d)\<rparr>"
    have del: "deleteSession i d = (Inr (), ?d)"
      using Cons.prems Suc by (simp add: deleteSession_next)
    have "handle_set ?d" "pending ?d = replicate j' None @ Some e # rest" "j' < length ids"
      using Cons.prems Suc by simp_all
    from Cons.IH [OF this]
    have rest: "delete_each ids ?d =
      (Inl e, ?d\<lparr>pending := rest,
                 sessions := filter (\<lambda>r. row_id r \<notin> set (take j' ids)) (sessions ?d)\<rparr>)" .
    have "filter (\<lambda>r. row_id r \<notin> set (take j' ids)) (filter (\<lambda>r. row_id r \<noteq> i) (sessions d)) =
          filter (\<lambda>r. row_id r \<notin> set (take j (i # ids))) (sessions d)"
      unfolding Suc by (induction "sessions d") (auto intro: filter_cong)
    then show ?thesis
      by (simp add: del rest)
  qed
qed

text \<open>Under the primary key, deleting by id deletes the very rows the ids were read from.\<close>

lemma filter_by_ids:
  assumes "distinct (map f xs)" and "set ys \<subseteq> set xs"
  shows "filter (\<lambda>r. f r \<notin> set (map f ys)) xs = filter (\<lambda>r. r \<notin> set ys) xs"
proof (rule filter_cong [OF refl])
  fix r assume r: "r \<in> set xs"
  have inj: "inj_on f (set xs)" using assms(1) by (simp add: distinct_map)
  show "(f r \<notin> set (map f ys)) = (r \<notin> set ys)"
    using r inj assms(2) by (auto dest: inj_onD)
qed

lemma later_candidates_kept:
  assumes "distinct ys" and "set ys \<subseteq> set xs" and "r \<in> set (drop j ys)"
  shows "r \<in> set (filter (\<lambda>x. x \<notin> set (take j ys)) xs)"
proof -
  have "distinct (take j ys @ drop j ys)" using assms(1) by simp
  then have "set (take j ys) \<inter> set (drop j ys) = {}"
    by (simp only: distinct_append)
  with assms(3) have "r \<notin> set (take j ys)" by blast
  moreover have "r \<in> set xs" using assms(2,3) by (auto dest: in_set_dropD)
  ultimately show ?thesis by simp
qed

subsection \<open>The primary key is kept\<close>

lemma database_run_primary_key:
  assumes "primary_key d"
    and "\<And>rows rows'. distinct (map row_id rows) \<Longrightarrow> statement rows = Inr rows' \<Longrightarrow>
           distinct (map row_id rows')"
  shows "primary_key (snd (database_run statement d))"
proof (cases "statement (sessions d)")
  case (Inl e)
  with assms(1) show ?thesis
    by (simp add: database_run_def sqlite_reports_def primary_key_def
          split: list.splits option.splits)
next
  case (Inr rows')
  with assms(2) [of "sessions d" rows'] assms(1) show ?thesis
    by (simp add: database_run_def sqlite_reports_def primary_key_def
          split: list.splits option.splits)
qed

lemma getSession_primary_key:
  "primary_key (snd (getSession i d)) = primary_key d"
  by (simp add: primary_key_def getSession_sessions)

lemma deleteSession_primary_key:
  "primary_key d \<Longrightarrow> primary_key (snd (deleteSession i d))"
  unfolding deleteSession_def
  by (rule database_run_primary_key) (auto simp: sql_delete_def distinct_map_filter)

lemma createSession_primary_key:
  assumes "primary_key d"
  shows "primary_key (snd (createSession uuid t1 t2 d))"
proof -
  let ?r = "\<lparr>row_id = uuid, created_at = Iso t1, last_accessed_at = Iso t2,
             chat_history = Json [], current_diagram = None,
             row_config = Json default_config\<rparr>"
  have "primary_key (snd (database_run (sql_insert ?r) d))"
    using assms
    by (rule database_run_primary_key) (auto simp: sql_insert_def split: if_splits)
  then show ?thesis
    by (cases "database_run (sql_insert ?r) d")
       (auto simp: createSession_def split: sum.splits)
qed

lemma updateSession_primary_key:
  assumes "primary_key d"
  shows "primary_key (snd (updateSession now i data d))"
proof (cases "getSession i d")
  case (Pair res d')
  have d': "primary_key d'"
    using getSession_primary_key [of i d] assms Pair by simp
  have upd: "primary_key (snd (database_run (sql_update a h g c i) d'))" for a h g c
    using d'
    by (rule database_run_primary_key)
       (auto simp: sql_update_def comp_def cong: map_cong
             elim!: back_subst [of "\<lambda>xs. distinct xs"])
  show ?thesis
    using Pair d' upd
    by (auto simp: updateSession_def Let_def split: sum.splits option.splits)
qed

lemma delete_each_primary_key:
  "primary_key d \<Longrightarrow> primary_key (snd (delete_each ids d))"
proof (induction ids arbitrary: d)
  case Nil
  then show ?case by simp
next
  case (Cons i ids)
  from deleteSession_primary_key [OF Cons.prems, of i] Cons.IH
  show ?case
    by (cases "deleteSession i d") (auto split: sum.splits)
qed

lemma cleanup_primary_key:
  assumes "primary_key d"
  shows "primary_key (snd (cleanupExpiredSessions zone now d))"
proof (cases "database_all (sql_select_expired (Iso (setHours_minus_24 zone now))) d")
  case (Pair res d')
  have "sessions d' = sessions d"
    using Pair
    by (auto simp: database_all_def sqlite_reports_def split: if_splits list.splits option.splits)
  then have d': "primary_key d'" using assms by (simp add: primary_key_def)
  show ?thesis
  proof (cases res)
    case (Inl e)
    with Pair d' show ?thesis by (simp add: cleanupExpiredSessions_def Let_def)
  next
    case (Inr ids)
    with Pair delete_each_primary_key [OF d', of ids] show ?thesis
      by (cases "delete_each ids d'")
         (auto simp: cleanupExpiredSessions_def Let_def split: sum.splits)
  qed
qed

lemma cleanup_answering:
  assumes "steady zone now" and "answering d" and "primary_key d"
  shows "cleanupExpiredSessions zone now d =
     (Inr (length (filter (expired now) (sessions d))),
      d\<lparr>sessions := filter (\<lambda>r. \<not> expired now r) (sessions d)\<rparr>)"
proof -
  let ?c = "candidates now (sessions d)"
  have sel: "database_all (sql_select_expired (Iso (now - hours 24))) d = (Inr (map row_id ?c), d)"
    using assms(2) by (simp add: database_all_answering select_expired)
  have dist: "distinct (map row_id (sessions d))" using assms(3) by (simp add: primary_key_def)
  have sub: "set ?c \<subseteq> set (sessions d)" by (auto simp: set_candidates)
  have "filter (\<lambda>r. row_id r \<notin> set (map row_id ?c)) (sessions d) =
        filter (\<lambda>r. r \<notin> set ?c) (sessions d)"
    using dist sub by (rule filter_by_ids)
  also have "\<dots> = filter (\<lambda>r. \<not> expired now r) (sessions d)"
    by (rule filter_cong [OF refl]) (simp add: set_candidates)
  finally have f: "filter (\<lambda>r. row_id r \<notin> set (map row_id ?c)) (sessions d) =
                   filter (\<lambda>r. \<not> expired now r) (sessions d)" .
  have "delete_each (map row_id ?c) d =
          (Inr (), d\<lparr>sessions := filter (\<lambda>r. row_id r \<notin> set (map row_id ?c)) (sessions d)\<rparr>)"
    using assms(2) by (rule delete_each_answering)
  then have del: "delete_each (map row_id ?c) d =
          (Inr (), d\<lparr>sessions := filter (\<lambda>r. \<not> expired now r) (sessions d)\<rparr>)"
    by (simp only: f)
  show ?thesis
    by (simp add: cleanupExpiredSessions_def Let_def setHours_minus_24_steady [OF assms(1)]
          sel del length_candidates)
qed

lemma cleanup_aborts:
  assumes "steady zone now" and "handle_set d" and "primary_key d"
    and "pending d = replicate (Suc j) None @ Some e # rest"
    and "j < length (candidates now (sessions d))"
  shows "cleanupExpiredSessions zone now d =
     (Inl e,
      d\<lparr>pending := rest,
        sessions := filter (\<lambda>r. r \<notin> set (take j (candidates now (sessions d)))) (sessions d)\<rparr>)"
proof -
  let ?c = "candidates now (sessions d)"
  let ?d = "d\<lparr>pending := replicate j None @ Some e # rest\<rparr>"
  have sel: "database_all (sql_select_expired (Iso (now - hours 24))) d =
             (Inr (map row_id ?c), ?d)"
    using assms(2,4) by (simp add: database_all_def sqlite_reports_def select_expired)
  have "handle_set ?d" "pending ?d = replicate j None @ Some e # rest"
       "j < length (map row_id ?c)"
    using assms by simp_all
  from delete_each_aborts [OF this]
  have del: "delete_each (map row_id ?c) ?d =
     (Inl e, d\<lparr>pending := rest,
               sessions := filter (\<lambda>r. row_id r \<notin> set (map row_id (take j ?c))) (sessions d)\<rparr>)"
    by (simp add: take_map)
  have dist: "distinct (map row_id (sessions d))" using assms(3) by (simp add: primary_key_def)
  have sub: "set (take j ?c) \<subseteq> set (sessions d)"
    by (auto simp: set_candidates dest: in_set_takeD)
  have f: "filter (\<lambda>r. row_id r \<notin> set (map row_id (take j ?c))) (sessions d) =
        filter (\<lambda>r. r \<notin> set (take j ?c)) (sessions d)"
    using dist sub by (rule filter_by_ids)
  have del': "delete_each (map row_id ?c) ?d =
     (Inl e, d\<lparr>pending := rest,
               sessions := filter (\<lambda>r. r \<notin> set (take j ?c)) (sessions d)\<rparr>)"
    using del by (simp only: f)
  show ?thesis
    by (simp add: cleanupExpiredSessions_def Let_def setHours_minus_24_steady [OF assms(1)]
          sel del')
qed

text \<open>
  Across a change of the local clock the cut-off is not 24 hours back. In the zone
  that moved its clock forward at \<open>hours 10\<close>, the cut-off at \<open>hours 25\<close> is 23 hours
  back, and a session last accessed 23 and a half hours before is deleted; on UTC it is
  kept.
\<close>

lemma cleanup_across_clock_change:
  "\<not> steady spring_forward (hours 25) \<and>
   setHours_minus_24 spring_forward (hours 25) = hours 25 - hours 23 \<and>
   cleanupExpiredSessions spring_forward (hours 25) one_session =
     (Inr 1, one_session\<lparr>sessions := []\<rparr>) \<and>
   cleanupExpiredSessions utc (hours 25) one_session = (Inr 0, one_session)"
  by (simp add: steady_def setHours_minus_24_def spring_forward_def utc_def hours_def
        cleanupExpiredSessions_def database_all_def sqlite_reports_def one_session_def
        sql_select_expired_def row_at_def deleteSession_def database_run_def sql_delete_def)

lemma steady_utc: "steady utc now"
  by (simp add: steady_def utc_def)

text \<open>
  Claim C5 as the specification words it: a failure deleting one session does not abort
  the batch. The loop of \<open>cleanupExpiredSessions\<close> awaits \<open>deleteSession\<close> outside any
  \<open>try\<close>. In the store of three sessions, read at \<open>hours 25\<close> on UTC, \<open>a\<close> and \<open>b\<close> both
  qualify; when the delete of the first candidate fails the error leaves the function,
  no count is printed, and both are still in the store, no further call having been
  made.
\<close>
theorem cleanup_aborts_counterexample:
  "expired (hours 25) (row_at ''a'' 0) \<and>
   expired (hours 25) (row_at ''b'' (hours (- 5))) \<and>
   steady utc (hours 25) \<and>
   fst (cleanupExpiredSessions utc (hours 25) three_sessions_busy) =
     Inl (JsError ''SQLITE_BUSY'') \<and>
   sessions (snd (cleanupExpiredSessions utc (hours 25) three_sessions_busy)) =
     [row_at ''a'' 0, row_at ''b'' (hours (- 5)), row_at ''c'' (hours 24)] \<and>
   pending (snd (cleanupExpiredSessions utc (hours 25) three_sessions_busy)) = []"
  by (simp add: cleanupExpiredSessions_def database_all_def sqlite_reports_def
        three_sessions_busy_def three_sessions_def sql_select_expired_def row_at_def hours_def
        deleteSession_def database_run_def expired_def steady_def utc_def setHours_minus_24_def)

text \<open>
  Claim C5, amended: a session qualifies when its \<open>lastAccessedAt\<close> is strictly before
  \<open>now\<close> minus 24 hours; one last accessed 25 hours ago does, one last accessed an hour
  ago does not. Where the local clock was not changed during the 24 hours before
  \<open>now\<close>, and on a database that answers, \<open>cleanupExpiredSessions\<close> deletes exactly the
  qualifying sessions and reports their number. The candidates are taken oldest
  first. When the select and the deletes of the first \<open>j\<close> candidates succeed and the
  next delete fails, the batch is aborted: the error is rethrown in place of a count,
  the first \<open>j\<close> candidates are gone, the candidate whose delete failed and all later
  ones are still in the store, and no further call is made.
\<close>
theorem cleanup_deletes_expired:
  "(\<forall>r. new_Date (last_accessed_at r) = now - hours 25 \<longrightarrow> expired now r) \<and>
   (\<forall>r. new_Date (last_accessed_at r) = now - hours 1 \<longrightarrow> \<not> expired now r) \<and>
   (\<forall>r. expired now r \<longleftrightarrow> new_Date (last_accessed_at r) < now - hours 24) \<and>
   (steady zone now \<and> answering d \<and> primary_key d \<longrightarrow>
      cleanupExpiredSessions zone now d =
        (Inr (length (filter (expired now) (sessions d))),
         d\<lparr>sessions := filter (\<lambda>r. \<not> expired now r) (sessions d)\<rparr>)) \<and>
   (steady zone now \<and> handle_set d \<and> primary_key d \<and>
    pending d = replicate (Suc j) None @ Some e # rest \<and>
    j < length (candidates now (sessions d)) \<longrightarrow>
      fst (cleanupExpiredSessions zone now d) = Inl e \<and>
      sessions (snd (cleanupExpiredSessions zone now d)) =
        filter (\<lambda>r. r \<notin> set (take j (candidates now (sessions d)))) (sessions d) \<and>
      set (drop j (candidates now (sessions d))) \<subseteq>
        set (sessions (snd (cleanupExpiredSessions zone now d))) \<and>
      pending (snd (cleanupExpiredSessions zone now d)) = rest)"
proof (intro conjI impI allI)
  fix r
  show "new_Date (last_accessed_at r) = now - hours 25 \<Longrightarrow> expired now r"
    by (simp add: expired_def hours_def)
  show "new_Date (last_accessed_at r) = now - hours 1 \<Longrightarrow> \<not> expired now r"
    by (simp add: expired_def hours_def)
  show "expired now r \<longleftrightarrow> new_Date (last_accessed_at r) < now - hours 24"
    by (simp add: expired_def)
next
  assume "steady zone now \<and> answering d \<and> primary_key d"
  then show "cleanupExpiredSessions zone now d =
        (Inr (length (filter (expired now) (sessions d))),
         d\<lparr>sessions := filter (\<lambda>r. \<not> expired now r) (sessions d)\<rparr>)"
    by (simp add: cleanup_answering)
next
  assume a: "steady zone now \<and> handle_set d \<and> primary_key d \<and>
    pending d = replicate (Suc j) None @ Some e # rest \<and>
    j < length (candidates now (sessions d))"
  then have c: "cleanupExpiredSessions zone now d =
     (Inl e,
      d\<lparr>pending := rest,
        sessions := filter (\<lambda>r. r \<notin> set (take j (candidates now (sessions d)))) (sessions d)\<rparr>)"
    by (intro cleanup_aborts) simp_all
  show "fst (cleanupExpiredSessions zone now d) = Inl e" by (simp add: c)
  show "sessions (snd (cleanupExpiredSessions zone now d)) =
        filter (\<lambda>r. r \<notin> set (take j (candidates now (sessions d)))) (sessions d)"
    by (simp add: c)
  show "pending (snd (cleanupExpiredSessions zone now d)) = rest" by (simp add: c)
  have "distinct (map row_id (candidates now (sessions d)))"
    using a by (simp add: primary_key_def distinct_candidates)
  then have dist: "distinct (candidates now (sessions d))" by (simp add: distinct_map)
  have sub: "set (candidates now (sessions d)) \<subseteq> set (sessions d)"
    by (auto simp: set_candidates)
  show "set (drop j (candidates now (sessions d))) \<subseteq>
        set (sessions (snd (cleanupExpiredSessions zone now d)))"
  proof
    fix r assume "r \<in> set (drop j (candidates now (sessions d)))"
    from later_candidates_kept [OF dist sub this]
    show "r \<in> set (sessions (snd (cleanupExpiredSessions zone now d)))"
      by (simp add: c)
  qed
qed

text \<open>
  The amended C5 on the store of three sessions read at \<open>hours 25\<close> on UTC: answering,
  failing the first delete, and failing the second delete, which leaves \<open>a\<close> and \<open>c\<close>.
\<close>
theorem cleanup_deletes_expired_witness:
  "cleanupExpiredSessions utc (hours 25) three_sessions =
     (Inr 2, three_sessions\<lparr>sessions := [row_at ''c'' (hours 24)]\<rparr>) \<and>
   new_Date (last_accessed_at (row_at ''a'' 0)) = hours 25 - hours 25 \<and>
   new_Date (last_accessed_at (row_at ''c'' (hours 24))) = hours 25 - hours 1 \<and>
   fst (cleanupExpiredSessions utc (hours 25) three_sessions_busy) =
     Inl (JsError ''SQLITE_BUSY'') \<and>
   sessions (snd (cleanupExpiredSessions utc (hours 25) three_sessions_busy)) =
     sessions three_sessions_busy \<and>
   candidates (hours 25) (sessions three_sessions) =
     [row_at ''b'' (hours (- 5)), row_at ''a'' 0] \<and>
   fst (cleanupExpiredSessions utc (hours 25) three_sessions_busy_later) =
     Inl (JsError ''SQLITE_BUSY'') \<and>
   sessions (snd (cleanupExpiredSessions utc (hours 25) three_sessions_busy_later)) =
     [row_at ''a'' 0, row_at ''c'' (hours 24)]"
proof -
  have a: "steady utc (hours 25) \<and> answering three_sessions \<and> primary_key three_sessions"
    by (simp add: steady_utc answering_def primary_key_def three_sessions_def row_at_def)
  have ex: "filter (expired (hours 25)) (sessions three_sessions) =
            [row_at ''a'' 0, row_at ''b'' (hours (- 5))]"
    by (simp add: three_sessions_def row_at_def expired_def hours_def)
  have keep: "filter (\<lambda>r. \<not> expired (hours 25) r) (sessions three_sessions) =
            [row_at ''c'' (hours 24)]"
    by (simp add: three_sessions_def row_at_def expired_def hours_def)
  have cand: "candidates (hours 25) (sessions three_sessions) =
            [row_at ''b'' (hours (- 5)), row_at ''a'' 0]"
    by (simp add: candidates_def ex) (simp add: row_at_def hours_def)
  have dates: "new_Date (last_accessed_at (row_at ''a'' 0)) = hours 25 - hours 25"
    "new_Date (last_accessed_at (row_at ''c'' (hours 24))) = hours 25 - hours 1"
    by (simp_all add: row_at_def hours_def)
  have s: "sessions three_sessions_busy = sessions three_sessions"
    "sessions three_sessions_busy_later = sessions three_sessions"
    by (simp_all add: three_sessions_busy_def three_sessions_busy_later_def)
  have b: "steady utc (hours 25) \<and> handle_set three_sessions_busy \<and>
           primary_key three_sessions_busy \<and>
           pending three_sessions_busy =
             replicate (Suc 0) None @ Some (JsError ''SQLITE_BUSY'') # [] \<and>
           0 < length (candidates (hours 25) (sessions three_sessions_busy))"
    using a by (simp add: s cand primary_key_def)
               (simp add: three_sessions_busy_def three_sessions_def)
  have l: "steady utc (hours 25) \<and> handle_set three_sessions_busy_later \<and>
           primary_key three_sessions_busy_later \<and>
           pending three_sessions_busy_later =
             replicate (Suc 1) None @ Some (JsError ''SQLITE_BUSY'') # [] \<and>
           1 < length (candidates (hours 25) (sessions three_sessions_busy_later))"
    using a by (simp add: s cand primary_key_def)
               (simp add: three_sessions_busy_later_def three_sessions_def)
  have left: "filter (\<lambda>r. r \<noteq> row_at ''b'' (hours (- 5))) (sessions three_sessions) =
              [row_at ''a'' 0, row_at ''c'' (hours 24)]"
    by (simp add: three_sessions_def row_at_def hours_def)
  from cleanup_deletes_expired [of "hours 25" utc three_sessions] a
  have 1: "cleanupExpiredSessions utc (hours 25) three_sessions =
     (Inr 2, three_sessions\<lparr>sessions := [row_at ''c'' (hours 24)]\<rparr>)"
    by (simp add: ex keep)
  from cleanup_deletes_expired [of "hours 25" utc three_sessions_busy 0
         "JsError ''SQLITE_BUSY''" "[]"] b
  have 2: "fst (cleanupExpiredSessions utc (hours 25) three_sessions_busy) =
             Inl (JsError ''SQLITE_BUSY'') \<and>
           sessions (snd (cleanupExpiredSessions utc (hours 25) three_sessions_busy)) =
             sessions three_sessions_busy"
    by simp
  from cleanup_deletes_expired [of "hours 25" utc three_sessions_busy_later 1
         "JsError ''SQLITE_BUSY''" "[]"] l
  have 3: "fst (cleanupExpiredSessions utc (hours 25) three_sessions_busy_later) =
             Inl (JsError ''SQLITE_BUSY'') \<and>
           sessions (snd (cleanupExpiredSessions utc (hours 25) three_sessions_busy_later)) =
             [row_at ''a'' 0, row_at ''c'' (hours 24)]"
    by (simp add: s cand left)
  from 1 2 3 dates cand show ?thesis by blast
qed

end
